theory Spec2Isabelle
  imports Main "HOL-Library.AList"
begin

section \<open>Python strings\<close>

text \<open>
  A Python \<open>str\<close> is modelled as a \<open>string\<close>. The model is exact on ASCII text: a
  character outside ASCII is several \<open>char\<close>s here, and \<open>lower\<close> leaves them as they are.
\<close>

definition lower_char :: "char \<Rightarrow> char" where
  "lower_char c =
     (let n = (of_char c :: nat) in if 65 \<le> n \<and> n \<le> 90 then char_of (n + 32) else c)"

definition lower :: "string \<Rightarrow> string" where
  "lower s = map lower_char s"

text \<open>\<open>s.startswith(p)\<close>.\<close>

definition startswith :: "string \<Rightarrow> string \<Rightarrow> bool" where
  "startswith s p = (take (length p) s = p)"

text \<open>\<open>sub in s\<close>: \<open>sub\<close> occurs in \<open>s\<close> as a contiguous block.\<close>

fun contains :: "string \<Rightarrow> string \<Rightarrow> bool" where
  "contains [] sub = (sub = [])"
| "contains (c # cs) sub = (startswith (c # cs) sub \<or> contains cs sub)"

text \<open>\<open>s.rfind(c)\<close> for a single character: the last index of \<open>c\<close>, \<open>None\<close> for -1.\<close>

fun rfind :: "char \<Rightarrow> string \<Rightarrow> nat option" where
  "rfind c [] = None"
| "rfind c (x # xs) =
     (case rfind c xs of
        Some i \<Rightarrow> Some (Suc i)
      | None \<Rightarrow> if x = c then Some 0 else None)"

text \<open>\<open>s.split(sep)\<close> for a single character separator; the result is never empty.\<close>

fun split :: "char \<Rightarrow> string \<Rightarrow> string list" where
  "split sep [] = [[]]"
| "split sep (c # cs) =
     (if c = sep then [] # split sep cs
      else (case split sep cs of
              [] \<Rightarrow> [[c]]
            | w # ws \<Rightarrow> (c # w) # ws))"

text \<open>\<open>s.strip(c)\<close> for a single character.\<close>

definition strip :: "char \<Rightarrow> string \<Rightarrow> string" where
  "strip c s = rev (dropWhile (\<lambda>x. x = c) (rev (dropWhile (\<lambda>x. x = c) s)))"

text \<open>
  \<open>s.replace(old, new)\<close> for a non-empty \<open>old\<close>: the occurrences are found from the left
  and do not overlap. (Python puts \<open>new\<close> between all characters when \<open>old\<close> is empty; the
  program never does that, and the model returns \<open>s\<close> there.)
\<close>

function replace :: "string \<Rightarrow> string \<Rightarrow> string \<Rightarrow> string" where
  "replace old new [] = []"
| "replace old new (c # cs) =
     (if old \<noteq> [] \<and> startswith (c # cs) old
      then new @ replace old new (drop (length old) (c # cs))
      else if old = [] then c # cs
      else c # replace old new cs)"
  by pat_completeness auto
termination
  by (relation "measure (\<lambda>(old, new, s). length s)") (auto simp: neq_Nil_conv)

text \<open>\<open>sep.join(xs)\<close>.\<close>

fun join_with :: "string \<Rightarrow> string list \<Rightarrow> string" where
  "join_with sep [] = []"
| "join_with sep [x] = x"
| "join_with sep (x # y # ys) = x @ sep @ join_with sep (y # ys)"

text \<open>\<open>str(n)\<close> for an integer.\<close>

fun str_nat :: "nat \<Rightarrow> string" where
  "str_nat n =
     (if n < 10 then [char_of (48 + n)]
      else str_nat (n div 10) @ [char_of (48 + n mod 10)])"

declare str_nat.simps [simp del]

definition str_int :: "int \<Rightarrow> string" where
  "str_int i = (if i < 0 then CHR ''-'' # str_nat (nat (- i)) else str_nat (nat i))"

section \<open>Paths (POSIX flavour)\<close>

text \<open>\<open>os.path.basename(p)\<close>: what follows the last slash.\<close>

definition basename :: "string \<Rightarrow> string" where
  "basename p = (case rfind CHR ''/'' p of None \<Rightarrow> p | Some i \<Rightarrow> drop (Suc i) p)"

text \<open>
  \<open>os.path.join(a, b)\<close> with two arguments: an absolute \<open>b\<close> replaces \<open>a\<close>, otherwise the
  two are joined with one slash unless \<open>a\<close> is empty or ends with one.
\<close>

definition path_join :: "string \<Rightarrow> string \<Rightarrow> string" where
  "path_join a b =
     (if startswith b ''/'' then b
      else if a = [] \<or> last a = CHR ''/'' then a @ b
      else a @ ''/'' @ b)"

text \<open>
  \<open>Path(p).name\<close>: pathlib splits at slashes, drops empty and \<open>.\<close> components, and the
  name is the last component left (empty when there is none).
\<close>

definition path_name :: "string \<Rightarrow> string" where
  "path_name p =
     (case filter (\<lambda>x. x \<noteq> [] \<and> x \<noteq> ''.'') (split CHR ''/'' p) of
        [] \<Rightarrow> []
      | x # xs \<Rightarrow> last (x # xs))"

text \<open>
  \<open>Path(p).suffix\<close>, in pathlib's definition by \<open>rfind\<close> (later versions, which take
  it from \<open>os.path.splitext\<close>, differ on names such as \<open>foo.\<close> and \<open>..a\<close>):
  \<^verbatim>\<open>
    name = self.name
    i = name.rfind('.')
    if 0 < i < len(name) - 1: return name[i:]
    else: return ''
  \<close>
\<close>

definition suffix :: "string \<Rightarrow> string" where
  "suffix p =
     (let name = path_name p in
      case rfind CHR ''.'' name of
        None \<Rightarrow> []
      | Some i \<Rightarrow> if 0 < i \<and> i + 1 < length name then drop i name else [])"

section \<open>The summary\<close>

text \<open>
  The \<open>analysis\<close> dictionary. The keys both scans fill are the fields of \<open>analysis\<close>;
  \<open>languages\<close> is a dictionary from extension to count, kept as an association list in
  insertion order. The type of the entries of \<open>directories\<close> is a parameter: the local scan
  appends path strings, the remote scan whatever value the tree listing carries.
\<close>

record 'd analysis =
  files :: "string list"
  directories :: "'d list"
  languages :: "(string \<times> nat) list"
  file_count :: nat
  has_requirements :: bool
  has_package_json :: bool
  has_dockerfile :: bool
  has_tests :: bool
  config_files :: "string list"

subsection \<open>The steps both scans take for one file\<close>

text \<open>
  \<^verbatim>\<open>
    if ext:
        analysis['languages'][ext] = analysis['languages'].get(ext, 0) + 1
  \<close>
\<close>

definition count_ext :: "string \<Rightarrow> ('d, 'z) analysis_scheme \<Rightarrow> ('d, 'z) analysis_scheme" where
  "count_ext ext a =
     (if ext \<noteq> []
      then a\<lparr>languages :=
               AList.update ext
                 ((case map_of (languages a) ext of None \<Rightarrow> 0 | Some n \<Rightarrow> n) + 1)
                 (languages a)\<rparr>
      else a)"

text \<open>
  The marker rules, an \<open>if\<close>/\<open>elif\<close> chain on the file's name. In the remote scan
  \<open>filename\<close> is \<open>os.path.basename(path)\<close>, in the local scan it is \<open>file\<close>; the tests are
  on its lowercase form, the name appended is the original one, and \<open>startswith\<close> reads
  the original one.
  \<^verbatim>\<open>
    if filename.lower() in ['requirements.txt', 'requirements-dev.txt', 'pyproject.toml', 'setup.py']:
        analysis['has_requirements'] = True
        analysis['config_files'].append(filename)
    elif filename.lower() in ['package.json', 'package-lock.json', 'yarn.lock']:
        analysis['has_package_json'] = True
        analysis['config_files'].append(filename)
    elif filename.lower() in ['dockerfile', 'docker-compose.yml', 'docker-compose.yaml']:
        analysis['has_dockerfile'] = True
        analysis['config_files'].append(filename)
    elif 'test' in filename.lower() or filename.startswith('test_'):
        analysis['has_tests'] = True
  \<close>
\<close>

definition requirements_names :: "string list" where
  "requirements_names = [''requirements.txt'', ''requirements-dev.txt'', ''pyproject.toml'', ''setup.py'']"

definition package_names :: "string list" where
  "package_names = [''package.json'', ''package-lock.json'', ''yarn.lock'']"

definition docker_names :: "string list" where
  "docker_names = [''dockerfile'', ''docker-compose.yml'', ''docker-compose.yaml'']"

definition mark_file :: "string \<Rightarrow> ('d, 'z) analysis_scheme \<Rightarrow> ('d, 'z) analysis_scheme" where
  "mark_file filename a =
     (if lower filename \<in> set requirements_names
      then a\<lparr>has_requirements := True, config_files := config_files a @ [filename]\<rparr>
      else if lower filename \<in> set package_names
      then a\<lparr>has_package_json := True, config_files := config_files a @ [filename]\<rparr>
      else if lower filename \<in> set docker_names
      then a\<lparr>has_dockerfile := True, config_files := config_files a @ [filename]\<rparr>
      else if contains (lower filename) ''test'' \<or> startswith filename ''test_''
      then a\<lparr>has_tests := True\<rparr>
      else a)"

text \<open>
  \<^verbatim>\<open>
    if len(analysis['files']) < 100:
        analysis['files'].append(path)
  \<close>
\<close>

definition sample_file :: "string \<Rightarrow> ('d, 'z) analysis_scheme \<Rightarrow> ('d, 'z) analysis_scheme" where
  "sample_file path a =
     (if length (files a) < 100 then a\<lparr>files := files a @ [path]\<rparr> else a)"

section \<open>JSON values and exceptions\<close>

text \<open>
  What \<open>response.json()\<close> returns: \<open>None\<close>, booleans, integers, strings, lists and
  dictionaries (in insertion order, keys distinct). Floating-point numbers are left out.
\<close>

datatype json =
    JNull
  | JBool bool
  | JInt int
  | JStr string
  | JArr "json list"
  | JObj "(string \<times> json) list"

text \<open>
  The exceptions the program can meet. \<open>Transport\<close> and \<open>JSONDecodeError\<close> come from the
  HTTP library and carry the library's text.
\<close>

datatype exn =
    KeyError string
  | TypeError
  | AttributeError
  | ValueError
  | Transport string
  | JSONDecodeError string

text \<open>One statement after the other inside \<open>try\<close>: an exception ends the block.\<close>

definition then_do :: "exn + 'a \<Rightarrow> ('a \<Rightarrow> exn + 'b) \<Rightarrow> exn + 'b" where
  "then_do m f = (case m of Inl e \<Rightarrow> Inl e | Inr x \<Rightarrow> f x)"

text \<open>\<open>j[k]\<close> with a string key: only a dictionary can be read so.\<close>

definition subscript :: "json \<Rightarrow> string \<Rightarrow> exn + json" where
  "subscript j k =
     (case j of
        JObj kvs \<Rightarrow> (case map_of kvs k of None \<Rightarrow> Inl (KeyError k) | Some v \<Rightarrow> Inr v)
      | _ \<Rightarrow> Inl TypeError)"

text \<open>\<open>j.get(k, d)\<close>: only a dictionary has the method.\<close>

definition dict_get :: "json \<Rightarrow> string \<Rightarrow> json \<Rightarrow> exn + json" where
  "dict_get j k d =
     (case j of
        JObj kvs \<Rightarrow> Inr (case map_of kvs k of None \<Rightarrow> d | Some v \<Rightarrow> v)
      | _ \<Rightarrow> Inl AttributeError)"

text \<open>
  \<open>for item in j\<close>: a list gives its elements, a dictionary its keys, a string its
  characters; nothing else can be iterated.
\<close>

definition iter_items :: "json \<Rightarrow> exn + json list" where
  "iter_items j =
     (case j of
        JArr xs \<Rightarrow> Inr xs
      | JObj kvs \<Rightarrow> Inr (map (\<lambda>kv. JStr (fst kv)) kvs)
      | JStr s \<Rightarrow> Inr (map (\<lambda>c. JStr [c]) s)
      | _ \<Rightarrow> Inl TypeError)"

text \<open>
  \<open>repr\<close> and \<open>str\<close> of a value, as an f-string formats it. \<open>repr\<close> of a string picks
  double quotes when the text has a single quote and no double quote, and escapes the
  quote, the backslash and the control characters.
\<close>

definition hex_digit :: "nat \<Rightarrow> char" where
  "hex_digit n = (if n < 10 then char_of (48 + n) else char_of (87 + n))"

definition repr_char :: "char \<Rightarrow> char \<Rightarrow> string" where
  "repr_char q c =
     (let n = (of_char c :: nat) in
      if c = q \<or> c = CHR 0x5C then [CHR 0x5C, c]
      else if n = 9 then [CHR 0x5C, CHR ''t'']
      else if n = 10 then [CHR 0x5C, CHR ''n'']
      else if n = 13 then [CHR 0x5C, CHR ''r'']
      else if n < 32 \<or> n = 127 then [CHR 0x5C, CHR ''x'', hex_digit (n div 16), hex_digit (n mod 16)]
      else [c])"

definition repr_str :: "string \<Rightarrow> string" where
  "repr_str s =
     (let q = (if CHR 0x27 \<in> set s \<and> CHR 0x22 \<notin> set s then CHR 0x22 else CHR 0x27)
      in q # concat (map (repr_char q) s) @ [q])"

fun py_repr :: "json \<Rightarrow> string" where
  "py_repr JNull = ''None''"
| "py_repr (JBool b) = (if b then ''True'' else ''False'')"
| "py_repr (JInt i) = str_int i"
| "py_repr (JStr s) = repr_str s"
| "py_repr (JArr xs) = ''['' @ join_with '', '' (map py_repr xs) @ '']''"
| "py_repr (JObj kvs) =
     ''{'' @ join_with '', '' (map (\<lambda>kv. repr_str (fst kv) @ '': '' @ py_repr (snd kv)) kvs) @ ''}''"

definition py_str :: "json \<Rightarrow> string" where
  "py_str j = (case j of JStr s \<Rightarrow> s | _ \<Rightarrow> py_repr j)"

section \<open>The remote scan\<close>

text \<open>
  The hosting service is a function from a request (the URL and the headers of
  \<open>requests.get\<close>) to a response, or to the exception the call raises. A response has its
  status code and what \<open>.json()\<close> gives for its body (a value, or an exception).
\<close>

record response =
  status_code :: int
  json_body :: "exn + json"

type_synonym request = "string \<times> (string \<times> string) list"

type_synonym network = "request \<Rightarrow> exn + response"

text \<open>
  What the function returns beside \<open>None\<close>: a message the code writes itself (\<open>Msg\<close>), or
  the \<open>"Error: " + str(e)\<close> of the \<open>except\<close> clause, kept as the exception caught
  (\<open>Caught\<close>).
\<close>

datatype failure = Msg string | Caught exn

record github_analysis = "json analysis" +
  name :: json
  description :: json
  language :: json
  stars :: json
  forks :: json
  open_issues :: json
  topics :: json
  owner :: string
  repo_url :: string

text \<open>
  \<^verbatim>\<open>
    parts = github_url.replace('https://github.com/', '').replace('http://github.com/', '').strip('/')
  \<close>
\<close>

definition reference_parts :: "string \<Rightarrow> string" where
  "reference_parts github_url =
     strip CHR ''/''
       (replace ''http://github.com/'' [] (replace ''https://github.com/'' [] github_url))"

text \<open>
  \<^verbatim>\<open>
    headers = {}
    if github_token:
        headers['Authorization'] = f'token {github_token}'
  \<close>
\<close>

definition auth_headers :: "string option \<Rightarrow> (string \<times> string) list" where
  "auth_headers github_token =
     (case github_token of
        None \<Rightarrow> []
      | Some t \<Rightarrow> if t \<noteq> [] then [(''Authorization'', ''token '' @ t)] else [])"

text \<open>
  One entry of the tree listing (the body of the \<open>for\<close> loop, lines 76 to 102).
\<close>

definition process_item :: "json \<Rightarrow> github_analysis \<Rightarrow> exn + github_analysis" where
  "process_item item a =
     then_do (subscript item ''type'') (\<lambda>ty.
       if ty = JStr ''blob''
       then
         (let a1 = a\<lparr>file_count := file_count a + 1\<rparr> in
          then_do (subscript item ''path'') (\<lambda>p.
            case p of
              JStr path \<Rightarrow>
                Inr (sample_file path
                      (mark_file (basename path)
                        (count_ext (lower (suffix path)) a1)))
            | _ \<Rightarrow> Inl TypeError))
       else if ty = JStr ''tree'' \<and> length (directories a) < 50
       then then_do (subscript item ''path'') (\<lambda>p.
              Inr (a\<lparr>directories := directories a @ [p]\<rparr>))
       else Inr a)"

fun process_tree :: "json list \<Rightarrow> github_analysis \<Rightarrow> exn + github_analysis" where
  "process_tree [] a = Inr a"
| "process_tree (item # items) a = then_do (process_item item a) (process_tree items)"

text \<open>The dictionary of lines 54 to 73.\<close>

definition initial_github_analysis ::
    "json \<Rightarrow> string \<Rightarrow> string \<Rightarrow> exn + github_analysis" where
  "initial_github_analysis repo_data own github_url =
     then_do (subscript repo_data ''name'') (\<lambda>nm.
     then_do (dict_get repo_data ''description'' (JStr ''No description'')) (\<lambda>de.
     then_do (dict_get repo_data ''language'' (JStr ''Unknown'')) (\<lambda>la.
     then_do (dict_get repo_data ''stargazers_count'' (JInt 0)) (\<lambda>st.
     then_do (dict_get repo_data ''forks_count'' (JInt 0)) (\<lambda>fo.
     then_do (dict_get repo_data ''open_issues_count'' (JInt 0)) (\<lambda>oi.
     then_do (dict_get repo_data ''topics'' (JArr [])) (\<lambda>to.
       Inr \<lparr>files = [], directories = [], languages = [], file_count = 0,
            has_requirements = False, has_package_json = False, has_dockerfile = False,
            has_tests = False, config_files = [],
            name = nm, description = de, language = la, stars = st, forks = fo,
            open_issues = oi, topics = to, owner = own, repo_url = github_url\<rparr>)))))))"

text \<open>Lines 52 to 104: from the two decoded bodies to the summary.\<close>

definition summarize :: "json \<Rightarrow> json \<Rightarrow> string \<Rightarrow> string \<Rightarrow> exn + github_analysis" where
  "summarize repo_data tree_data own github_url =
     then_do (initial_github_analysis repo_data own github_url) (\<lambda>a.
     then_do (dict_get tree_data ''tree'' (JArr [])) (\<lambda>t.
     then_do (iter_items t) (\<lambda>items.
       process_tree items a)))"

definition caught :: "exn + github_analysis \<Rightarrow> failure + github_analysis" where
  "caught r = (case r of Inl e \<Rightarrow> Inl (Caught e) | Inr a \<Rightarrow> Inr a)"

text \<open>
  Lines 25 to 29: the owner and the repository of the reference.
  \<^verbatim>\<open>
    if '/' not in parts:
        return None, "Invalid GitHub URL format"
    owner, repo = parts.split('/')[:2]
  \<close>
\<close>

definition owner_and_repo :: "string \<Rightarrow> failure + string \<times> string" where
  "owner_and_repo github_url =
     (let parts = reference_parts github_url in
      if CHR ''/'' \<notin> set parts then Inl (Msg ''Invalid GitHub URL format'')
      else
        (case take 2 (split CHR ''/'' parts) of
           [own, repo] \<Rightarrow> Inr (own, repo)
         | _ \<Rightarrow> Inl (Caught ValueError)))"

definition api_base :: "string \<Rightarrow> string \<Rightarrow> string" where
  "api_base own repo = ''https://api.github.com/repos/'' @ own @ ''/'' @ repo"

definition tree_url :: "string \<Rightarrow> string \<Rightarrow> json \<Rightarrow> string" where
  "tree_url own repo branch =
     api_base own repo @ ''/git/trees/'' @ py_str branch @ ''?recursive=1''"

text \<open>
  \<open>fetch_github_repo_structure\<close>. The result is the summary or the failure, with the
  requests made, in order.
\<close>

definition fetch_github_repo_structure ::
    "network \<Rightarrow> string \<Rightarrow> string option \<Rightarrow> (failure + github_analysis) \<times> request list" where
  "fetch_github_repo_structure net github_url github_token =
     (case owner_and_repo github_url of
        Inl f \<Rightarrow> (Inl f, [])
      | Inr (own, repo) \<Rightarrow>
          (let headers = auth_headers github_token;
               repo_request = (api_base own repo, headers)
           in case net repo_request of
                Inl e \<Rightarrow> (Inl (Caught e), [repo_request])
              | Inr repo_response \<Rightarrow>
                  if status_code repo_response \<noteq> 200
                  then
                    ((case then_do (json_body repo_response)
                             (\<lambda>j. dict_get j ''message'' (JStr ''Unknown error'')) of
                        Inl e \<Rightarrow> Inl (Caught e)
                      | Inr m \<Rightarrow>
                          Inl (Msg (''Error: '' @ str_int (status_code repo_response)
                                     @ '' - '' @ py_str m))),
                     [repo_request])
                  else
                    (case then_do (json_body repo_response)
                            (\<lambda>repo_data.
                               then_do (subscript repo_data ''default_branch'')
                                 (\<lambda>b. Inr (repo_data, b))) of
                       Inl e \<Rightarrow> (Inl (Caught e), [repo_request])
                     | Inr (repo_data, branch) \<Rightarrow>
                         (let tree_request = (tree_url own repo branch, headers)
                          in case net tree_request of
                               Inl e \<Rightarrow> (Inl (Caught e), [repo_request, tree_request])
                             | Inr tree_response \<Rightarrow>
                                 if status_code tree_response \<noteq> 200
                                 then
                                   (Inl (Msg (''Error fetching tree: ''
                                               @ str_int (status_code tree_response))),
                                    [repo_request, tree_request])
                                 else
                                   (caught
                                      (then_do (json_body tree_response)
                                         (\<lambda>tree_data.
                                            summarize repo_data tree_data own github_url)),
                                    [repo_request, tree_request])))))"

section \<open>Fetching one file\<close>

text \<open>
  \<open>fetch_github_file_content\<close>. The two decoders are the library's:
  \<open>b64decode\<close> stands for \<open>base64.b64decode\<close> applied to the value under \<open>content\<close>, and
  \<open>utf8_decode\<close> for \<open>bytes.decode('utf-8')\<close>, each giving its result or the exception it
  raises. The bare \<open>except\<close> turns every exception into \<open>None\<close>.
  \<^verbatim>\<open>
    response = requests.get(url, headers=headers)
    if response.status_code == 200:
        content = response.json().get('content', '')
        decoded = base64.b64decode(content).decode('utf-8')
        return decoded[:2000]  # Limit content
    return None
  \<close>
\<close>

definition content_url :: "string \<Rightarrow> string \<Rightarrow> string \<Rightarrow> string \<Rightarrow> string" where
  "content_url own repo file_path branch =
     ''https://api.github.com/repos/'' @ own @ ''/'' @ repo @ ''/contents/'' @ file_path
       @ ''?ref='' @ branch"

definition fetch_github_file_content ::
    "(json \<Rightarrow> exn + 'b) \<Rightarrow> ('b \<Rightarrow> exn + string) \<Rightarrow> network \<Rightarrow>
     string \<Rightarrow> string \<Rightarrow> string \<Rightarrow> string \<Rightarrow> string option \<Rightarrow> string option" where
  "fetch_github_file_content b64decode utf8_decode net own repo file_path branch github_token =
     (case net (content_url own repo file_path branch, auth_headers github_token) of
        Inl e \<Rightarrow> None
      | Inr response \<Rightarrow>
          if status_code response = 200
          then
            (case then_do (json_body response) (\<lambda>j.
                    then_do (dict_get j ''content'' (JStr [])) (\<lambda>content.
                    then_do (b64decode content) utf8_decode)) of
               Inl e \<Rightarrow> None
             | Inr decoded \<Rightarrow> Some (take 2000 decoded))
          else None)"

section \<open>The local scan\<close>

text \<open>
  A directory as \<open>os.walk\<close> lists it: the names of its files, and its subdirectories by
  name, both in listing order. A subdirectory that cannot be listed, or that is a symbolic
  link (which \<open>os.walk\<close> does not follow), is one with nothing in it.
\<close>

datatype fsdir = Dir (dir_files: "string list") (dir_subdirs: "(string \<times> fsdir) list")

record local_analysis = "string analysis" +
  is_local :: bool

definition initial_local_analysis :: local_analysis where
  "initial_local_analysis =
     \<lparr>files = [], directories = [], languages = [], file_count = 0,
      has_requirements = False, has_package_json = False, has_dockerfile = False,
      has_tests = False, config_files = [], is_local = True\<rparr>"

definition deny_list :: "string list" where
  "deny_list = [''.git'', ''node_modules'', ''__pycache__'', ''venv'',
                ''.venv'', ''dist'', ''build'', ''.next'', ''.idea'']"

text \<open>
  \<open>os.path.relpath(root, path)\<close> for a directory \<open>root\<close> that \<open>os.walk(path)\<close> reached
  through the subdirectories \<open>comps\<close>: \<open>.\<close> for \<open>path\<close> itself.
\<close>

definition relpath :: "string list \<Rightarrow> string" where
  "relpath comps = (if comps = [] then ''.'' else join_with ''/'' comps)"

text \<open>One file of the walk (the body of the inner loop, lines 151 to 172).\<close>

definition process_file :: "string \<Rightarrow> string \<Rightarrow> local_analysis \<Rightarrow> local_analysis" where
  "process_file rel_root file a =
     (let a1 = a\<lparr>file_count := file_count a + 1\<rparr>;
          file_path = path_join rel_root file
      in sample_file file_path (mark_file file (count_ext (lower (suffix file)) a1)))"

text \<open>
  \<^verbatim>\<open>
    if len(analysis['directories']) < 50:
        analysis['directories'].extend([os.path.join(rel_root, d) for d in dirs])
  \<close>
\<close>

definition sample_directories :: "string \<Rightarrow> string list \<Rightarrow> local_analysis \<Rightarrow> local_analysis" where
  "sample_directories rel_root dirs a =
     (if length (directories a) < 50
      then a\<lparr>directories := directories a @ map (path_join rel_root) dirs\<rparr>
      else a)"

text \<open>
  The loop over \<open>os.walk(path)\<close>, top down: the body runs for a directory, with \<open>dirs\<close>
  cut down to the names off the deny-list, and the walk then goes through the
  subdirectories left in \<open>dirs\<close>, one after the other.
\<close>

definition kept_subdirs :: "(string \<times> fsdir) list \<Rightarrow> (string \<times> fsdir) list" where
  "kept_subdirs subs = filter (\<lambda>ds. fst ds \<notin> set deny_list) subs"

lemma size_kept_subdirs:
  "size_list (size_prod (\<lambda>_. 0) size) (kept_subdirs subs) \<le> size_list (size_prod (\<lambda>_. 0) size) subs"
  unfolding kept_subdirs_def by (induction subs) auto

function walk :: "string list \<Rightarrow> fsdir \<Rightarrow> local_analysis \<Rightarrow> local_analysis"
  and walk_subdirs :: "string list \<Rightarrow> (string \<times> fsdir) list \<Rightarrow> local_analysis \<Rightarrow> local_analysis"
where
  "walk comps (Dir fs subs) a =
     (let kept = kept_subdirs subs;
          rel_root = relpath comps;
          a1 = fold (process_file rel_root) fs a;
          a2 = sample_directories rel_root (map fst kept) a1
      in walk_subdirs comps kept a2)"
| "walk_subdirs comps [] a = a"
| "walk_subdirs comps ((d, sub) # rest) a = walk_subdirs comps rest (walk (comps @ [d]) sub a)"
  by pat_completeness auto
termination
proof (relation "measure (\<lambda>x. case x of
          Inl (_, t, _) \<Rightarrow> 2 * size t
        | Inr (_, subs, _) \<Rightarrow> 2 * size_list (size_prod (\<lambda>_. 0) size) subs + 1)", goal_cases)
  case 1
  show ?case by simp
next
  case (2 comps fs subs a kept rel_root a1 a2)
  then show ?case
    using size_kept_subdirs [of subs] by simp
next
  case (3 comps d sub rest a)
  show ?case by simp
next
  case (4 comps d sub rest a)
  show ?case by simp
qed

definition analyze_local_directory :: "fsdir \<Rightarrow> local_analysis" where
  "analyze_local_directory t = walk [] t initial_local_analysis"

section \<open>Notions the properties are stated with\<close>

text \<open>A tree entry the remote loop counts as a file: its \<open>type\<close> is \<open>blob\<close>.\<close>

definition is_blob :: "json \<Rightarrow> bool" where
  "is_blob item = (subscript item ''type'' = Inr (JStr ''blob''))"

text \<open>The entries the remote loop goes through: \<open>tree_data.get('tree', [])\<close>.\<close>

definition tree_entries :: "json \<Rightarrow> exn + json list" where
  "tree_entries tree_data = then_do (dict_get tree_data ''tree'' (JArr [])) iter_items"

text \<open>
  The files a local walk observes: those of the directory and of every subdirectory it
  goes into.
\<close>

lemma size_kept_member:
  "ds \<in> set (kept_subdirs subs) \<Longrightarrow> size (snd ds) < Suc (size_list (size_prod (\<lambda>_. 0) size) subs)"
  unfolding kept_subdirs_def by (induction subs) (auto simp: less_Suc_eq_le split: if_splits)

function walked_files :: "fsdir \<Rightarrow> string list" where
  "walked_files (Dir fs subs) = fs @ concat (map (\<lambda>ds. walked_files (snd ds)) (kept_subdirs subs))"
  by pat_completeness auto
termination
  by (relation "measure size") (auto dest: size_kept_member)

text \<open>
  A directory without what the deny-list names: the subdirectories on the list are taken
  out, at every level the walk reaches.
\<close>

function prune :: "fsdir \<Rightarrow> fsdir" where
  "prune (Dir fs subs) = Dir fs (map (\<lambda>ds. (fst ds, prune (snd ds))) (kept_subdirs subs))"
  by pat_completeness auto
termination
  by (relation "measure size") (auto dest: size_kept_member)

text \<open>A key of the histogram as the summary promises it: a dot first, and lowercase.\<close>

definition extension_key :: "string \<Rightarrow> bool" where
  "extension_key k = (startswith k ''.'' \<and> lower k = k)"

text \<open>
  The owner and the repository as the summary's description derives them: the host prefix
  taken off the front of the reference, the slashes at both ends stripped, and the first
  two components of what is left.
\<close>

definition strip_host_prefix :: "string \<Rightarrow> string" where
  "strip_host_prefix ref =
     (if startswith ref ''https://github.com/'' then drop (length ''https://github.com/'') ref
      else if startswith ref ''http://github.com/'' then drop (length ''http://github.com/'') ref
      else ref)"

definition first_two_components :: "string \<Rightarrow> (string \<times> string) option" where
  "first_two_components ref =
     (case split CHR ''/'' (strip CHR ''/'' (strip_host_prefix ref)) of
        own # repo # extra \<Rightarrow> Some (own, repo)
      | _ \<Rightarrow> None)"

text \<open>
  What the remote loop does with a \<open>blob\<close> entry whose path is a string (lines 77 to 99),
  and the fields of the summary that only files write.
\<close>

definition blob_step :: "string \<Rightarrow> ('d, 'z) analysis_scheme \<Rightarrow> ('d, 'z) analysis_scheme" where
  "blob_step path a =
     sample_file path (mark_file (basename path)
       (count_ext (lower (suffix path)) (a\<lparr>file_count := file_count a + 1\<rparr>)))"

definition file_part ::
    "('d, 'z) analysis_scheme \<Rightarrow>
     string list \<times> (string \<times> nat) list \<times> nat \<times> bool \<times> bool \<times> bool \<times> bool \<times> string list" where
  "file_part a =
     (files a, languages a, file_count a, has_requirements a, has_package_json a,
      has_dockerfile a, has_tests a, config_files a)"

text \<open>
  The rule of the marker chain that a file name falls under: 1 to 4 in the order of the
  chain, 0 for none.
\<close>

definition category :: "string \<Rightarrow> nat" where
  "category filename =
     (if lower filename \<in> set requirements_names then 1
      else if lower filename \<in> set package_names then 2
      else if lower filename \<in> set docker_names then 3
      else if contains (lower filename) ''test'' \<or> startswith filename ''test_'' then 4
      else 0)"

text \<open>
  An entry as the tree listing has them: its \<open>type\<close> is \<open>blob\<close> or \<open>tree\<close> and its
  \<open>path\<close> is a string.
\<close>

definition listed :: "json \<Rightarrow> bool" where
  "listed item =
     ((subscript item ''type'' = Inr (JStr ''blob'') \<or> subscript item ''type'' = Inr (JStr ''tree''))
      \<and> (case subscript item ''path'' of Inr (JStr p) \<Rightarrow> True | _ \<Rightarrow> False))"

definition path_of :: "json \<Rightarrow> string" where
  "path_of item = (case subscript item ''path'' of Inr (JStr p) \<Rightarrow> p | _ \<Rightarrow> [])"

section \<open>Example inputs\<close>

text \<open>
  Entries of a tree listing as the hosting service writes them, and the summary the
  remote scan starts from for a repository \<open>acme/widget\<close>.
\<close>

definition blob_entry :: "string \<Rightarrow> json" where
  "blob_entry path = JObj [(''path'', JStr path), (''mode'', JStr ''100644''), (''type'', JStr ''blob'')]"

definition dir_entry :: "string \<Rightarrow> json" where
  "dir_entry path = JObj [(''path'', JStr path), (''mode'', JStr ''040000''), (''type'', JStr ''tree'')]"

definition widget_analysis :: github_analysis where
  "widget_analysis =
     \<lparr>files = [], directories = [], languages = [], file_count = 0,
      has_requirements = False, has_package_json = False, has_dockerfile = False,
      has_tests = False, config_files = [],
      name = JStr ''widget'', description = JStr ''No description'', language = JStr ''Unknown'',
      stars = JInt 0, forks = JInt 0, open_issues = JInt 0, topics = JArr [],
      owner = ''acme'', repo_url = ''https://github.com/acme/widget''\<rparr>"

text \<open>
  A hosting service that knows one repository, \<open>acme/widget\<close>, with the branch \<open>main\<close>:
  it answers the two requests of the remote scan and has nothing else.
\<close>

definition widget_repo_data :: json where
  "widget_repo_data = JObj [(''name'', JStr ''widget''), (''default_branch'', JStr ''main'')]"

definition tree_body :: "json list \<Rightarrow> json" where
  "tree_body entries =
     JObj [(''sha'', JStr ''main''), (''tree'', JArr entries), (''truncated'', JBool False)]"

definition ok_response :: "json \<Rightarrow> response" where
  "ok_response body = \<lparr>status_code = 200, json_body = Inr body\<rparr>"

definition not_found :: response where
  "not_found = \<lparr>status_code = 404, json_body = Inr (JObj [(''message'', JStr ''Not Found'')])\<rparr>"

definition serve_widget :: "response \<Rightarrow> response \<Rightarrow> network" where
  "serve_widget repo_response tree_response request =
     (if fst request = ''https://api.github.com/repos/acme/widget'' then Inr repo_response
      else if fst request = ''https://api.github.com/repos/acme/widget/git/trees/main?recursive=1''
      then Inr tree_response
      else Inr not_found)"

definition widget_net :: "json list \<Rightarrow> network" where
  "widget_net entries = serve_widget (ok_response widget_repo_data) (ok_response (tree_body entries))"

definition widget_url :: string where
  "widget_url = ''https://github.com/acme/widget''"

definition widget_requests :: "request list" where
  "widget_requests =
     [(''https://api.github.com/repos/acme/widget'', []),
      (''https://api.github.com/repos/acme/widget/git/trees/main?recursive=1'', [])]"

definition many_paths :: "string list" where
  "many_paths = map (\<lambda>n. ''src/f'' @ str_nat n @ ''.py'') [0..<101]"

text \<open>
  The tree of \<open>acme/widget\<close> as the service lists it, sorted by path: four files, one of
  them in the directory \<open>src\<close>.
\<close>

definition widget_entries :: "json list" where
  "widget_entries =
     [blob_entry ''Dockerfile'', blob_entry ''requirements.txt'', dir_entry ''src'',
      blob_entry ''src/main.py'', blob_entry ''test_main.py'']"

text \<open>
  Services for the single-file fetch: one that answers the request for \<open>README.md\<close> of
  \<open>acme/widget\<close> on \<open>main\<close>, and one that cannot be reached. The decoder \<open>table_b64decode\<close>
  knows the encoding of 3000 letters \<open>a\<close> and of the empty text and refuses everything else.
\<close>

definition file_net :: "response \<Rightarrow> network" where
  "file_net r request =
     (if fst request = ''https://api.github.com/repos/acme/widget/contents/README.md?ref=main''
      then Inr r else Inr not_found)"

definition down_net :: network where
  "down_net request = Inl (Transport ''Connection refused'')"

definition table_b64decode :: "json \<Rightarrow> exn + string" where
  "table_b64decode content =
     (if content = JStr (concat (replicate 1000 ''YWFh'')) then Inr (replicate 3000 CHR ''a'')
      else if content = JStr [] then Inr []
      else Inl ValueError)"

definition ascii_decode :: "string \<Rightarrow> exn + string" where
  "ascii_decode bytes = Inr bytes"

section \<open>Properties of the helpers and of the remote loop\<close>

lemma startswith_Nil [simp]: "startswith s [] = True"
  by (simp add: startswith_def)

lemma startswith_Nil_Cons [simp]: "startswith [] (p # ps) = False"
  by (simp add: startswith_def)

lemma startswith_Cons_Cons [simp]: "startswith (c # cs) (p # ps) = (c = p \<and> startswith cs ps)"
  by (auto simp: startswith_def)

lemma lower_char_idem [simp]: "lower_char (lower_char c) = lower_char c"
  by (auto simp: lower_char_def Let_def)

lemma lower_idem [simp]: "lower (lower s) = lower s"
  by (simp add: lower_def)

lemma rfind_Some: "rfind c xs = Some i \<Longrightarrow> i < length xs \<and> xs ! i = c"
  by (induction xs arbitrary: i) (auto split: option.splits if_splits)

lemma suffix_dot: "suffix p \<noteq> [] \<Longrightarrow> hd (suffix p) = CHR ''.''"
  by (auto simp: suffix_def Let_def hd_drop_conv_nth split: option.splits if_splits dest!: rfind_Some)

lemma extension_key_lower_suffix: "suffix p \<noteq> [] \<Longrightarrow> extension_key (lower (suffix p))"
proof -
  assume ne: "suffix p \<noteq> []"
  then obtain cs where s: "suffix p = CHR ''.'' # cs"
    using suffix_dot [OF ne] by (cases "suffix p") auto
  show ?thesis
    by (simp add: extension_key_def s lower_def) (simp add: lower_char_def)
qed

text \<open>What the three steps leave alone.\<close>

lemma count_ext_fields [simp]:
  "files (count_ext e a) = files a"
  "directories (count_ext e a) = directories a"
  "file_count (count_ext e a) = file_count a"
  "has_requirements (count_ext e a) = has_requirements a"
  "has_package_json (count_ext e a) = has_package_json a"
  "has_dockerfile (count_ext e a) = has_dockerfile a"
  "has_tests (count_ext e a) = has_tests a"
  "config_files (count_ext e a) = config_files a"
  by (simp_all add: count_ext_def)

lemma mark_file_fields [simp]:
  "files (mark_file f a) = files a"
  "directories (mark_file f a) = directories a"
  "file_count (mark_file f a) = file_count a"
  "languages (mark_file f a) = languages a"
  by (simp_all add: mark_file_def)

lemma sample_file_fields [simp]:
  "directories (sample_file p a) = directories a"
  "file_count (sample_file p a) = file_count a"
  "languages (sample_file p a) = languages a"
  "has_requirements (sample_file p a) = has_requirements a"
  "has_package_json (sample_file p a) = has_package_json a"
  "has_dockerfile (sample_file p a) = has_dockerfile a"
  "has_tests (sample_file p a) = has_tests a"
  "config_files (sample_file p a) = config_files a"
  by (simp_all add: sample_file_def)

lemma length_files_sample_file:
  "length (files (sample_file p a)) = (if length (files a) < 100 then Suc (length (files a)) else length (files a))"
  by (simp add: sample_file_def)

lemma languages_count_ext_keys:
  "fst ` set (languages (count_ext e a)) = (if e = [] then {} else {e}) \<union> fst ` set (languages a)"
  by (simp add: count_ext_def dom_update)

lemma languages_count_ext_Nil [simp]: "languages (count_ext [] a) = languages a"
  by (simp add: count_ext_def)

lemma lower_Nil_iff [simp]: "lower s = [] \<longleftrightarrow> s = []"
  by (simp add: lower_def)

text \<open>One entry of the remote listing.\<close>

lemma process_item_blob:
  assumes "subscript item ''type'' = Inr (JStr ''blob'')"
    and "process_item item a = Inr a'"
  obtains path where "subscript item ''path'' = Inr (JStr path)"
    and "a' = sample_file path (mark_file (basename path)
                 (count_ext (lower (suffix path)) (a\<lparr>file_count := file_count a + 1\<rparr>)))"
  using assms
  by (auto simp: process_item_def then_do_def Let_def split: sum.splits json.splits)

lemma process_item_not_blob:
  assumes "subscript item ''type'' \<noteq> Inr (JStr ''blob'')"
    and "process_item item a = Inr a'"
  shows "a' = a \<or> (\<exists>p. length (directories a) < 50 \<and> a' = a\<lparr>directories := directories a @ [p]\<rparr>)"
  using assms
  by (auto simp: process_item_def then_do_def Let_def split: sum.splits if_splits)

lemma process_item_file_count:
  assumes "process_item item a = Inr a'"
  shows "file_count a' = file_count a + (if is_blob item then 1 else 0)"
proof (cases "is_blob item")
  case True
  then show ?thesis
    using assms by (auto simp: is_blob_def elim!: process_item_blob)
next
  case False
  then show ?thesis
    using process_item_not_blob [OF _ assms] by (auto simp: is_blob_def)
qed

lemma process_item_files:
  assumes "process_item item a = Inr a'"
  shows "length (files a') =
           (if is_blob item \<and> length (files a) < 100 then Suc (length (files a)) else length (files a))"
proof (cases "is_blob item")
  case True
  then show ?thesis
    using assms by (auto simp: is_blob_def length_files_sample_file elim!: process_item_blob)
next
  case False
  then show ?thesis
    using process_item_not_blob [OF _ assms] by (auto simp: is_blob_def)
qed

lemma process_item_directories:
  assumes "process_item item a = Inr a'" and "length (directories a) \<le> 50"
  shows "length (directories a') \<le> 50"
proof (cases "is_blob item")
  case True
  then show ?thesis
    using assms by (auto simp: is_blob_def elim!: process_item_blob)
next
  case False
  then show ?thesis
    using process_item_not_blob [OF _ assms(1)] assms(2) by (auto simp: is_blob_def)
qed

lemma count_ext_keys:
  assumes "\<forall>k \<in> fst ` set (languages a). P k" and "e \<noteq> [] \<Longrightarrow> P e"
  shows "\<forall>k \<in> fst ` set (languages (count_ext e a)). P k"
  unfolding languages_count_ext_keys using assms by (cases "e = []") simp_all

lemma process_item_keys:
  assumes "process_item item a = Inr a'" and "\<forall>k \<in> fst ` set (languages a). extension_key k"
  shows "\<forall>k \<in> fst ` set (languages a'). extension_key k"
proof (cases "is_blob item")
  case True
  then obtain path where a': "a' = sample_file path (mark_file (basename path)
                 (count_ext (lower (suffix path)) (a\<lparr>file_count := file_count a + 1\<rparr>)))"
    using assms(1) by (auto simp: is_blob_def elim!: process_item_blob)
  have "\<forall>k \<in> fst ` set (languages (count_ext (lower (suffix path)) (a\<lparr>file_count := file_count a + 1\<rparr>))).
          extension_key k"
    by (rule count_ext_keys) (use assms(2) in \<open>simp_all add: extension_key_lower_suffix\<close>)
  then show ?thesis
    by (simp add: a')
next
  case False
  then show ?thesis
    using process_item_not_blob [OF _ assms(1)] assms(2) by (auto simp: is_blob_def)
qed

text \<open>The whole listing.\<close>

lemma process_tree_file_count:
  "process_tree items a = Inr a' \<Longrightarrow> file_count a' = file_count a + length (filter is_blob items)"
proof (induction items arbitrary: a)
  case Nil
  then show ?case by simp
next
  case (Cons item items)
  then obtain a1 where 1: "process_item item a = Inr a1" and 2: "process_tree items a1 = Inr a'"
    by (auto simp: then_do_def split: sum.splits)
  show ?case
    using Cons.IH [OF 2] process_item_file_count [OF 1] by simp
qed

lemma process_tree_files:
  "process_tree items a = Inr a' \<Longrightarrow> length (files a) = min 100 (file_count a)
    \<Longrightarrow> length (files a') = min 100 (file_count a')"
proof (induction items arbitrary: a)
  case Nil
  then show ?case by simp
next
  case (Cons item items)
  then obtain a1 where 1: "process_item item a = Inr a1" and 2: "process_tree items a1 = Inr a'"
    by (auto simp: then_do_def split: sum.splits)
  have "length (files a1) = min 100 (file_count a1)"
    using process_item_files [OF 1] process_item_file_count [OF 1] Cons.prems(2)
    by (auto split: if_splits)
  then show ?case
    by (rule Cons.IH [OF 2])
qed

lemma process_tree_directories:
  "process_tree items a = Inr a' \<Longrightarrow> length (directories a) \<le> 50 \<Longrightarrow> length (directories a') \<le> 50"
proof (induction items arbitrary: a)
  case Nil
  then show ?case by simp
next
  case (Cons item items)
  then obtain a1 where 1: "process_item item a = Inr a1" and 2: "process_tree items a1 = Inr a'"
    by (auto simp: then_do_def split: sum.splits)
  show ?case
    using Cons.IH [OF 2] process_item_directories [OF 1 Cons.prems(2)] by simp
qed

lemma process_tree_keys:
  "process_tree items a = Inr a' \<Longrightarrow> \<forall>k \<in> fst ` set (languages a). extension_key k
    \<Longrightarrow> \<forall>k \<in> fst ` set (languages a'). extension_key k"
proof (induction items arbitrary: a)
  case Nil
  then show ?case by simp
next
  case (Cons item items)
  then obtain a1 where 1: "process_item item a = Inr a1" and 2: "process_tree items a1 = Inr a'"
    by (auto simp: then_do_def split: sum.splits)
  show ?case
    using Cons.IH [OF 2] process_item_keys [OF 1 Cons.prems(2)] by simp
qed

lemma initial_github_analysis_fields:
  assumes "initial_github_analysis repo_data own url = Inr a"
  shows "files a = []" "directories a = []" "languages a = []" "file_count a = 0"
    "\<not> has_requirements a" "\<not> has_package_json a" "\<not> has_dockerfile a" "\<not> has_tests a"
    "config_files a = []"
  using assms
  by (auto simp: initial_github_analysis_def then_do_def split: sum.splits)

lemma summarize_Inr:
  assumes "summarize repo_data tree_data own url = Inr a"
  obtains a0 items where "initial_github_analysis repo_data own url = Inr a0"
    and "tree_entries tree_data = Inr items" and "process_tree items a0 = Inr a"
  using assms
  by (auto simp: summarize_def tree_entries_def then_do_def split: sum.splits)

lemma fetch_Inr:
  assumes "fetch_github_repo_structure net url tok = (Inr a, reqs)"
  obtains own repo repo_response repo_data branch tree_response tree_data
  where "owner_and_repo url = Inr (own, repo)"
    and "reqs = [(api_base own repo, auth_headers tok), (tree_url own repo branch, auth_headers tok)]"
    and "net (api_base own repo, auth_headers tok) = Inr repo_response"
    and "status_code repo_response = 200"
    and "json_body repo_response = Inr repo_data"
    and "subscript repo_data ''default_branch'' = Inr branch"
    and "net (tree_url own repo branch, auth_headers tok) = Inr tree_response"
    and "status_code tree_response = 200"
    and "json_body tree_response = Inr tree_data"
    and "summarize repo_data tree_data own url = Inr a"
  using assms
  by (auto simp: fetch_github_repo_structure_def Let_def then_do_def caught_def
        split: sum.splits if_splits prod.splits)

lemma process_item_blob_eq:
  assumes "subscript item ''type'' = Inr (JStr ''blob'')"
    and "subscript item ''path'' = Inr (JStr path)"
  shows "process_item item a =
           Inr (sample_file path (mark_file (basename path)
                 (count_ext (lower (suffix path)) (a\<lparr>file_count := file_count a + 1\<rparr>))))"
  using assms by (simp add: process_item_def then_do_def Let_def)

lemma mark_file_exact_has_tests:
  "lower filename \<in> set requirements_names \<union> set package_names \<union> set docker_names
    \<Longrightarrow> has_tests (mark_file filename a) = has_tests a"
  by (auto simp: mark_file_def)

section \<open>The marker rules\<close>

text \<open>
  C2 (as amended). In both scans, a file whose lowercase name is one of the names of the
  three exact-match lists leaves \<open>has_tests\<close> as it was: the test rule is the last branch
  of the chain and is not reached. In the remote scan the entry is then always accepted.
\<close>

theorem exact_match_keeps_has_tests:
  assumes "lower filename \<in> set requirements_names \<union> set package_names \<union> set docker_names"
  shows "has_tests (process_file rel_root filename la) = has_tests la \<and>
         (subscript item ''type'' = Inr (JStr ''blob'') \<and>
          subscript item ''path'' = Inr (JStr path) \<and> basename path = filename
            \<longrightarrow> (\<exists>g'. process_item item g = Inr g' \<and> has_tests g' = has_tests g))"
  using assms
  by (auto simp: process_file_def Let_def process_item_blob_eq mark_file_exact_has_tests)

theorem exact_match_keeps_has_tests_witness:
  "lower ''Requirements.txt'' \<in> set requirements_names \<union> set package_names \<union> set docker_names \<and>
   has_tests (process_file ''.'' ''Requirements.txt'' initial_local_analysis)
     = has_tests initial_local_analysis \<and>
   (\<exists>g'. process_item (blob_entry ''docs/Requirements.txt'') widget_analysis = Inr g' \<and>
         has_tests g' = has_tests widget_analysis)"
proof -
  have h: "lower ''Requirements.txt'' \<in> set requirements_names \<union> set package_names \<union> set docker_names"
    by code_simp
  have i: "subscript (blob_entry ''docs/Requirements.txt'') ''type'' = Inr (JStr ''blob'')"
    "subscript (blob_entry ''docs/Requirements.txt'') ''path'' = Inr (JStr ''docs/Requirements.txt'')"
    "basename ''docs/Requirements.txt'' = ''Requirements.txt''"
    by code_simp+
  show ?thesis
    using h i exact_match_keeps_has_tests [OF h, of "''.''" initial_local_analysis
        "blob_entry ''docs/Requirements.txt''" "''docs/Requirements.txt''" widget_analysis]
    by blast
qed

text \<open>
  C2 as stated fails on its own example: the name
  \<open>requirements-test.txt\<close> is in none of the three lists, so it reaches the test rule,
  which sets \<open>has_tests\<close>, and \<open>has_requirements\<close> stays false.
\<close>

theorem requirements_test_sets_has_tests:
  "lower ''requirements-test.txt'' \<notin> set requirements_names \<union> set package_names \<union> set docker_names \<and>
   \<not> has_requirements (process_file ''.'' ''requirements-test.txt'' initial_local_analysis) \<and>
   has_tests (process_file ''.'' ''requirements-test.txt'' initial_local_analysis) \<and>
   \<not> has_tests initial_local_analysis"
  by code_simp

section \<open>Properties of the local walk\<close>

text \<open>One file of the local walk.\<close>

lemma process_file_fields [simp]:
  "file_count (process_file r f a) = Suc (file_count a)"
  "directories (process_file r f a) = directories a"
  "length (files (process_file r f a)) =
     (if length (files a) < 100 then Suc (length (files a)) else length (files a))"
  by (simp_all add: process_file_def Let_def length_files_sample_file)

lemma process_file_keys:
  assumes "\<forall>k \<in> fst ` set (languages a). extension_key k"
  shows "\<forall>k \<in> fst ` set (languages (process_file r f a)). extension_key k"
proof -
  have "\<forall>k \<in> fst ` set (languages (count_ext (lower (suffix f)) (a\<lparr>file_count := file_count a + 1\<rparr>))).
          extension_key k"
    by (rule count_ext_keys) (use assms in \<open>simp_all add: extension_key_lower_suffix\<close>)
  then show ?thesis
    by (simp add: process_file_def Let_def)
qed

lemma sample_directories_fields [simp]:
  "files (sample_directories r ds a) = files a"
  "file_count (sample_directories r ds a) = file_count a"
  "languages (sample_directories r ds a) = languages a"
  "has_requirements (sample_directories r ds a) = has_requirements a"
  "has_package_json (sample_directories r ds a) = has_package_json a"
  "has_dockerfile (sample_directories r ds a) = has_dockerfile a"
  "has_tests (sample_directories r ds a) = has_tests a"
  "config_files (sample_directories r ds a) = config_files a"
  by (simp_all add: sample_directories_def)

text \<open>What every step of the walk keeps, the walk keeps.\<close>

lemma fold_process_file_invariant:
  assumes "\<And>r f a. Q a \<Longrightarrow> Q (process_file r f a)"
  shows "Q a \<Longrightarrow> Q (fold (process_file r) fs a)"
  by (induction fs arbitrary: a) (simp_all add: assms)

lemma walk_invariant:
  assumes step_file: "\<And>r f a. Q a \<Longrightarrow> Q (process_file r f a)"
    and step_dirs: "\<And>r ds a. Q a \<Longrightarrow> Q (sample_directories r ds a)"
  shows "Q a \<Longrightarrow> Q (walk comps t a)"
    and "Q a \<Longrightarrow> Q (walk_subdirs comps subs a)"
proof (induction comps t a and comps subs a rule: walk_walk_subdirs.induct)
  case (1 comps fs subs a)
  have "Q (fold (process_file (relpath comps)) fs a)"
    using step_file "1.prems" by (rule fold_process_file_invariant [of Q])
  then have "Q (sample_directories (relpath comps) (map fst (kept_subdirs subs))
             (fold (process_file (relpath comps)) fs a))"
    by (rule step_dirs)
  then show ?case
    using "1.IH" by (simp add: Let_def)
next
  case (2 comps a)
  then show ?case by simp
next
  case (3 comps d sub rest a)
  then show ?case by simp
qed

lemma fold_process_file_count [simp]:
  "file_count (fold (process_file r) fs a) = file_count a + length fs"
  by (induction fs arbitrary: a) simp_all

lemma walk_file_count:
  "file_count (walk comps t a) = file_count a + length (walked_files t)"
  "file_count (walk_subdirs comps subs a) =
     file_count a + length (concat (map (\<lambda>ds. walked_files (snd ds)) subs))"
proof (induction comps t a and comps subs a rule: walk_walk_subdirs.induct)
  case (1 comps fs subs a)
  then show ?case by (simp add: Let_def)
next
  case (2 comps a)
  then show ?case by simp
next
  case (3 comps d sub rest a)
  then show ?case by simp
qed

lemma capped_step:
  "(n::nat) = min 100 m \<Longrightarrow> (if n < 100 then Suc n else n) = min 100 (Suc m)"
  by (cases "m < 100") simp_all

lemma process_file_files_capped:
  assumes "length (files a) = min 100 (file_count a)"
  shows "length (files (process_file r f a)) = min 100 (file_count (process_file r f a))"
  unfolding process_file_fields using assms by (rule capped_step)

lemma walk_files_capped:
  assumes "length (files a) = min 100 (file_count a)"
  shows "length (files (walk comps t a)) = min 100 (file_count (walk comps t a))"
proof (rule walk_invariant(1) [where Q = "\<lambda>a. length (files a) = min 100 (file_count a)"])
  show "length (files a) = min 100 (file_count a)"
    by (rule assms)
next
  fix r f and a :: local_analysis
  assume "length (files a) = min 100 (file_count a)"
  then show "length (files (process_file r f a)) = min 100 (file_count (process_file r f a))"
    by (rule process_file_files_capped)
next
  fix r ds and a :: local_analysis
  assume "length (files a) = min 100 (file_count a)"
  then show "length (files (sample_directories r ds a)) = min 100 (file_count (sample_directories r ds a))"
    by (simp only: sample_directories_fields)
qed

lemma walk_keys:
  assumes "\<forall>k \<in> fst ` set (languages a). extension_key k"
  shows "\<forall>k \<in> fst ` set (languages (walk comps t a)). extension_key k"
proof (rule walk_invariant(1) [where Q = "\<lambda>a. \<forall>k \<in> fst ` set (languages a). extension_key k"])
  show "\<forall>k \<in> fst ` set (languages a). extension_key k"
    by (rule assms)
next
  fix r f and a :: local_analysis
  assume "\<forall>k \<in> fst ` set (languages a). extension_key k"
  then show "\<forall>k \<in> fst ` set (languages (process_file r f a)). extension_key k"
    by (rule process_file_keys)
next
  fix r ds and a :: local_analysis
  assume "\<forall>k \<in> fst ` set (languages a). extension_key k"
  then show "\<forall>k \<in> fst ` set (languages (sample_directories r ds a)). extension_key k"
    by (simp only: sample_directories_fields)
qed

text \<open>What the deny-list names plays no part.\<close>

lemma kept_subdirs_map [simp]:
  "kept_subdirs (map (\<lambda>ds. (fst ds, f (snd ds))) subs) = map (\<lambda>ds. (fst ds, f (snd ds))) (kept_subdirs subs)"
  by (induction subs) (simp_all add: kept_subdirs_def)

lemma kept_subdirs_idem [simp]: "kept_subdirs (kept_subdirs subs) = kept_subdirs subs"
  by (simp add: kept_subdirs_def)

lemma walk_prune:
  "walk comps (prune t) a = walk comps t a"
  "walk_subdirs comps (map (\<lambda>ds. (fst ds, prune (snd ds))) subs) a = walk_subdirs comps subs a"
proof (induction comps t a and comps subs a rule: walk_walk_subdirs.induct)
  case (1 comps fs subs a)
  then show ?case by (simp add: Let_def comp_def)
next
  case (2 comps a)
  then show ?case by simp
next
  case (3 comps d sub rest a)
  then show ?case by simp
qed

lemma initial_local_analysis_fields [simp]:
  "files initial_local_analysis = []"
  "directories initial_local_analysis = []"
  "languages initial_local_analysis = []"
  "file_count initial_local_analysis = 0"
  by (simp_all add: initial_local_analysis_def)

section \<open>The file count\<close>

text \<open>
  C3. In both scans \<open>file_count\<close> is the number of files observed: in the remote scan the
  number of \<open>blob\<close> entries of the tree listing the second request returned, in the local
  scan the number of files the walk went through. \<open>files\<close> holds the first hundred of them
  at most, so the count goes on past the length of \<open>files\<close>.
\<close>

theorem file_count_counts_every_file:
  "(fetch_github_repo_structure net url tok = (Inr a, reqs) \<longrightarrow>
      (\<exists>tree_response tree_data items.
         net (last reqs) = Inr tree_response \<and> json_body tree_response = Inr tree_data \<and>
         tree_entries tree_data = Inr items \<and>
         file_count a = length (filter is_blob items) \<and>
         length (files a) = min 100 (file_count a))) \<and>
   file_count (analyze_local_directory t) = length (walked_files t) \<and>
   length (files (analyze_local_directory t)) = min 100 (length (walked_files t))"
proof (intro conjI impI)
  assume ok: "fetch_github_repo_structure net url tok = (Inr a, reqs)"
  from ok obtain own repo branch tree_response repo_data tree_data
    where reqs: "reqs = [(api_base own repo, auth_headers tok), (tree_url own repo branch, auth_headers tok)]"
      and net: "net (tree_url own repo branch, auth_headers tok) = Inr tree_response"
      and body: "json_body tree_response = Inr tree_data"
      and sum: "summarize repo_data tree_data own url = Inr a"
    by (rule fetch_Inr)
  from sum obtain a0 items
    where a0: "initial_github_analysis repo_data own url = Inr a0"
      and items: "tree_entries tree_data = Inr items"
      and tree: "process_tree items a0 = Inr a"
    by (rule summarize_Inr)
  have count: "file_count a = length (filter is_blob items)"
    using process_tree_file_count [OF tree] initial_github_analysis_fields(4) [OF a0] by simp
  have "length (files a0) = min 100 (file_count a0)"
    using initial_github_analysis_fields(1,4) [OF a0] by simp
  then have cap: "length (files a) = min 100 (file_count a)"
    by (rule process_tree_files [OF tree])
  have "net (last reqs) = Inr tree_response"
    using net by (simp add: reqs)
  then show "\<exists>tree_response tree_data items.
         net (last reqs) = Inr tree_response \<and> json_body tree_response = Inr tree_data \<and>
         tree_entries tree_data = Inr items \<and>
         file_count a = length (filter is_blob items) \<and>
         length (files a) = min 100 (file_count a)"
    using body items count cap by blast
next
  show c: "file_count (analyze_local_directory t) = length (walked_files t)"
    by (simp add: analyze_local_directory_def walk_file_count(1))
  have "length (files (walk [] t initial_local_analysis))
          = min 100 (file_count (walk [] t initial_local_analysis))"
    by (rule walk_files_capped) simp
  then show "length (files (analyze_local_directory t)) = min 100 (length (walked_files t))"
    using c by (simp add: analyze_local_directory_def)
qed

section \<open>The deny-list\<close>

text \<open>
  C6. The local scan of a directory is the scan of the directory with every subdirectory
  that the deny-list names taken out, at every level: such a directory gives nothing to
  \<open>directories\<close>, and its files nothing to \<open>file_count\<close> or to any other field. A directory
  with one file \<open>index.js\<close> and a subdirectory \<open>node_modules\<close>, whatever is in it, has
  \<open>file_count\<close> 1, no package manifest and no sampled directory.
\<close>

theorem denied_directories_are_not_walked:
  "analyze_local_directory (prune t) = analyze_local_directory t \<and>
   file_count (analyze_local_directory (Dir [''index.js''] [(''node_modules'', sub)])) = 1 \<and>
   \<not> has_package_json (analyze_local_directory (Dir [''index.js''] [(''node_modules'', sub)])) \<and>
   directories (analyze_local_directory (Dir [''index.js''] [(''node_modules'', sub)])) = []"
proof -
  have k: "kept_subdirs [(''node_modules'', sub)] = []"
    by (simp add: kept_subdirs_def deny_list_def)
  have m: "\<not> has_package_json (mark_file ''index.js'' (a :: local_analysis)) \<longleftrightarrow> \<not> has_package_json a" for a
    by (simp add: mark_file_def requirements_names_def package_names_def docker_names_def
          lower_def lower_char_def)
  have w: "analyze_local_directory (Dir [''index.js''] [(''node_modules'', sub)])
         = sample_directories ''.'' [] (process_file ''.'' ''index.js'' initial_local_analysis)"
    by (simp add: analyze_local_directory_def k relpath_def Let_def)
  have "\<not> has_package_json (process_file ''.'' ''index.js'' initial_local_analysis)"
    by (simp add: process_file_def Let_def m) (simp add: initial_local_analysis_def)
  then show ?thesis
    by (simp add: w walk_prune(1) analyze_local_directory_def [of t]
          analyze_local_directory_def [of "prune t"] sample_directories_def)
qed

section \<open>The caps of the samples\<close>

text \<open>
  C1 fails in the local scan. The test \<open>len(analysis['directories']) < 50\<close> is made once
  for a directory, and \<open>extend\<close> then appends all of its subdirectories: a directory with
  51 subdirectories and nothing else gives 51 entries.
\<close>

theorem local_scan_exceeds_directory_cap:
  "length (directories (analyze_local_directory
      (Dir [] (map (\<lambda>n. (''pkg'' @ str_nat n, Dir [] [])) [0..<51])))) = 51"
  by code_simp

section \<open>The example repository\<close>

lemma owner_and_repo_widget: "owner_and_repo widget_url = Inr (''acme'', ''widget'')"
  by code_simp

lemma initial_widget:
  "initial_github_analysis widget_repo_data ''acme'' widget_url = Inr widget_analysis"
  by (simp add: initial_github_analysis_def widget_repo_data_def widget_analysis_def widget_url_def
        then_do_def subscript_def dict_get_def)

lemma tree_entries_tree_body [simp]: "tree_entries (tree_body entries) = Inr entries"
  by (simp add: tree_entries_def tree_body_def dict_get_def iter_items_def then_do_def)

lemma summarize_widget:
  "summarize widget_repo_data (tree_body entries) ''acme'' widget_url = process_tree entries widget_analysis"
  by (simp add: summarize_def initial_widget then_do_def tree_body_def dict_get_def iter_items_def)

lemma fetch_widget:
  "fetch_github_repo_structure (widget_net entries) widget_url None
     = (caught (process_tree entries widget_analysis), widget_requests)"
proof -
  have d: "subscript widget_repo_data ''default_branch'' = Inr (JStr ''main'')"
    by (simp add: widget_repo_data_def subscript_def)
  have u: "api_base ''acme'' ''widget'' = ''https://api.github.com/repos/acme/widget''"
    "tree_url ''acme'' ''widget'' (JStr ''main'')
       = ''https://api.github.com/repos/acme/widget/git/trees/main?recursive=1''"
    by (simp_all add: api_base_def tree_url_def py_str_def)
  show ?thesis
    by (simp add: fetch_github_repo_structure_def owner_and_repo_widget u d
          widget_net_def serve_widget_def ok_response_def auth_headers_def then_do_def Let_def
          widget_requests_def summarize_widget)
qed


lemma is_blob_blob_entry [simp]: "is_blob (blob_entry p)"
  by (simp add: is_blob_def blob_entry_def subscript_def)

lemma process_tree_blob_entries: "\<exists>a'. process_tree (map blob_entry ps) a = Inr a'"
proof (induction ps arbitrary: a)
  case Nil
  show ?case by simp
next
  case (Cons p ps)
  have "\<exists>a1. process_item (blob_entry p) a = Inr a1"
    by (simp add: process_item_blob_eq [where path = p] blob_entry_def subscript_def)
  then show ?case
    using Cons.IH by (auto simp: then_do_def)
qed

text \<open>C3 on a repository and on a directory of 101 files.\<close>

theorem file_count_counts_every_file_witness:
  "(\<exists>a. fetch_github_repo_structure (widget_net (map blob_entry many_paths)) widget_url None
           = (Inr a, widget_requests) \<and>
        file_count a = 101 \<and> length (files a) = 100) \<and>
   file_count (analyze_local_directory (Dir many_paths [])) = 101 \<and>
   length (files (analyze_local_directory (Dir many_paths []))) = 100"
proof -
  have n: "length many_paths = 101"
    by (simp add: many_paths_def)
  obtain a where "process_tree (map blob_entry many_paths) widget_analysis = Inr a"
    using process_tree_blob_entries by blast
  then have ok: "fetch_github_repo_structure (widget_net (map blob_entry many_paths)) widget_url None
                   = (Inr a, widget_requests)"
    by (simp add: fetch_widget caught_def)
  note inst = file_count_counts_every_file [of "widget_net (map blob_entry many_paths)" widget_url None
      a widget_requests "Dir many_paths []"]
  from inst ok obtain tree_response tree_data items
    where r: "widget_net (map blob_entry many_paths) (last widget_requests) = Inr tree_response"
      and b: "json_body tree_response = Inr tree_data"
      and i: "tree_entries tree_data = Inr items"
      and c: "file_count a = length (filter is_blob items)"
      and f: "length (files a) = min 100 (file_count a)"
    by blast
  from r have "tree_response = ok_response (tree_body (map blob_entry many_paths))"
    by (simp add: widget_requests_def widget_net_def serve_widget_def)
  with b have "tree_data = tree_body (map blob_entry many_paths)"
    by (simp add: ok_response_def)
  with i have "items = map blob_entry many_paths"
    by simp
  then have "filter is_blob items = items"
    by (simp add: filter_id_conv)
  with c f n \<open>items = map blob_entry many_paths\<close>
  have "file_count a = 101" "length (files a) = 100"
    by simp_all
  with ok have remote: "\<exists>a. fetch_github_repo_structure (widget_net (map blob_entry many_paths)) widget_url None
           = (Inr a, widget_requests) \<and> file_count a = 101 \<and> length (files a) = 100"
    by blast
  have "walked_files (Dir many_paths []) = many_paths"
    by (simp add: kept_subdirs_def)
  with inst n have "file_count (analyze_local_directory (Dir many_paths [])) = 101"
    "length (files (analyze_local_directory (Dir many_paths []))) = 100"
    by simp_all
  with remote show ?thesis
    by blast
qed

section \<open>The extension histogram\<close>

text \<open>
  C5. In both scans every key of \<open>languages\<close> starts with the dot and is lowercase. A file
  whose name has no extension (\<open>Path(...).suffix\<close> is empty) adds one to \<open>file_count\<close> and
  leaves \<open>languages\<close> as it is; in the remote scan such an entry is always accepted.
\<close>

theorem histogram_keys_are_lowercase_extensions:
  "(fetch_github_repo_structure net url tok = (Inr a, reqs) \<longrightarrow>
      (\<forall>k \<in> fst ` set (languages a). extension_key k)) \<and>
   (\<forall>k \<in> fst ` set (languages (analyze_local_directory t)). extension_key k) \<and>
   (suffix file = [] \<longrightarrow>
      languages (process_file rel_root file la) = languages la \<and>
      file_count (process_file rel_root file la) = file_count la + 1) \<and>
   (subscript item ''type'' = Inr (JStr ''blob'') \<and> subscript item ''path'' = Inr (JStr path) \<and>
    suffix path = [] \<longrightarrow>
      (\<exists>g'. process_item item g = Inr g' \<and> languages g' = languages g \<and>
            file_count g' = file_count g + 1))"
proof (intro conjI impI)
  assume ok: "fetch_github_repo_structure net url tok = (Inr a, reqs)"
  from ok obtain own repo_data tree_data
    where sum: "summarize repo_data tree_data own url = Inr a"
    by (rule fetch_Inr)
  from sum obtain a0 items
    where a0: "initial_github_analysis repo_data own url = Inr a0"
      and tree: "process_tree items a0 = Inr a"
    by (rule summarize_Inr)
  have "\<forall>k \<in> fst ` set (languages a0). extension_key k"
    using initial_github_analysis_fields(3) [OF a0] by simp
  then show "\<forall>k \<in> fst ` set (languages a). extension_key k"
    by (rule process_tree_keys [OF tree])
next
  show "\<forall>k \<in> fst ` set (languages (analyze_local_directory t)). extension_key k"
    unfolding analyze_local_directory_def by (rule walk_keys) simp
next
  assume "suffix file = []"
  then show "languages (process_file rel_root file la) = languages la"
    by (simp add: process_file_def Let_def lower_def)
next
  show "file_count (process_file rel_root file la) = file_count la + 1"
    by simp
next
  assume h: "subscript item ''type'' = Inr (JStr ''blob'') \<and>
             subscript item ''path'' = Inr (JStr path) \<and> suffix path = []"
  then have "process_item item g =
           Inr (sample_file path (mark_file (basename path)
                 (count_ext (lower (suffix path)) (g\<lparr>file_count := file_count g + 1\<rparr>))))"
    by (simp add: process_item_blob_eq)
  then show "\<exists>g'. process_item item g = Inr g' \<and> languages g' = languages g \<and>
            file_count g' = file_count g + 1"
    using h by (simp add: lower_def)
qed

text \<open>C5 on a listing and on a directory with an uppercase extension and a \<open>Makefile\<close>.\<close>

theorem histogram_keys_are_lowercase_extensions_witness:
  "(\<exists>a. fetch_github_repo_structure (widget_net [blob_entry ''docs/README.MD'', blob_entry ''Makefile''])
            widget_url None = (Inr a, widget_requests) \<and>
        languages a = [(''.md'', 1)] \<and> file_count a = 2 \<and> extension_key ''.md'') \<and>
   languages (analyze_local_directory (Dir [''Main.PY'', ''Makefile''] [])) = [(''.py'', 1)] \<and>
   extension_key ''.py'' \<and>
   suffix ''Makefile'' = [] \<and>
   languages (process_file ''.'' ''Makefile'' initial_local_analysis) = [] \<and>
   file_count (process_file ''.'' ''Makefile'' initial_local_analysis) = 1 \<and>
   (\<exists>g'. process_item (blob_entry ''Makefile'') widget_analysis = Inr g' \<and>
         languages g' = [] \<and> file_count g' = 1)"
proof -
  let ?entries = "[blob_entry ''docs/README.MD'', blob_entry ''Makefile'']"
  let ?t = "Dir [''Main.PY'', ''Makefile''] []"
  obtain a where t: "process_tree ?entries widget_analysis = Inr a"
    using process_tree_blob_entries [of "[''docs/README.MD'', ''Makefile'']" widget_analysis]
    by auto
  then have ok: "fetch_github_repo_structure (widget_net ?entries) widget_url None
                   = (Inr a, widget_requests)"
    by (simp add: fetch_widget caught_def)
  have "languages (projr (process_tree ?entries widget_analysis)) = [(''.md'', 1)]"
    "file_count (projr (process_tree ?entries widget_analysis)) = 2"
    by code_simp+
  then have la: "languages a = [(''.md'', 1)]" "file_count a = 2"
    unfolding t by simp_all
  have ll: "languages (analyze_local_directory ?t) = [(''.py'', 1)]"
    by code_simp
  have s: "suffix ''Makefile'' = []"
    by code_simp
  have i: "subscript (blob_entry ''Makefile'') ''type'' = Inr (JStr ''blob'')"
    "subscript (blob_entry ''Makefile'') ''path'' = Inr (JStr ''Makefile'')"
    by code_simp+
  have w: "languages widget_analysis = []" "file_count widget_analysis = 0"
    by (simp_all add: widget_analysis_def)
  note inst = histogram_keys_are_lowercase_extensions [of "widget_net ?entries" widget_url None a
      widget_requests ?t "''Makefile''" "''.''" initial_local_analysis "blob_entry ''Makefile''"
      "''Makefile''" widget_analysis]
  from inst ok la have "extension_key ''.md''"
    by simp
  moreover from inst ll have "extension_key ''.py''"
    by simp
  moreover from inst s have "languages (process_file ''.'' ''Makefile'' initial_local_analysis) = []"
    "file_count (process_file ''.'' ''Makefile'' initial_local_analysis) = 1"
    by simp_all
  moreover from inst s i w have "\<exists>g'. process_item (blob_entry ''Makefile'') widget_analysis = Inr g' \<and>
         languages g' = [] \<and> file_count g' = 1"
    by simp
  ultimately show ?thesis
    using ok la ll s by blast
qed

section \<open>The scenario of a small repository\<close>

lemma file_part_blob_step:
  "file_part a = file_part b \<Longrightarrow> file_part (blob_step p a) = file_part (blob_step p b)"
  by (simp add: file_part_def blob_step_def sample_file_def mark_file_def count_ext_def)

lemma file_part_directories [simp]: "file_part (a\<lparr>directories := d\<rparr>) = file_part a"
  by (simp add: file_part_def)

lemma process_item_listed:
  assumes "listed item"
  shows "process_item item a = Inr (blob_step (path_of item) a) \<and> is_blob item
       \<or> (\<exists>d. process_item item a = Inr (a\<lparr>directories := d\<rparr>)) \<and> \<not> is_blob item"
proof (cases "is_blob item")
  case True
  then have "subscript item ''type'' = Inr (JStr ''blob'')"
    by (simp add: is_blob_def)
  moreover from assms have "subscript item ''path'' = Inr (JStr (path_of item))"
    by (auto simp: listed_def path_of_def split: sum.splits json.splits)
  ultimately show ?thesis
    using True by (simp add: process_item_blob_eq blob_step_def)
next
  case False
  then have t: "subscript item ''type'' = Inr (JStr ''tree'')"
    using assms by (auto simp: listed_def is_blob_def)
  from assms obtain p where p: "subscript item ''path'' = Inr p"
    by (auto simp: listed_def split: sum.splits)
  have "process_item item a = Inr (a\<lparr>directories := directories a\<rparr>)
      \<or> process_item item a = Inr (a\<lparr>directories := directories a @ [p]\<rparr>)"
    by (simp add: process_item_def t p then_do_def)
  then show ?thesis
    using False by blast
qed

lemma process_tree_listed:
  assumes "\<forall>item \<in> set items. listed item" and "file_part a = file_part b"
  shows "\<exists>a'. process_tree items a = Inr a' \<and>
           file_part a' = file_part (fold blob_step (map path_of (filter is_blob items)) b)"
  using assms
proof (induction items arbitrary: a b)
  case Nil
  then show ?case by simp
next
  case (Cons item items)
  from Cons.prems have l: "listed item" and ls: "\<forall>item \<in> set items. listed item"
    by simp_all
  show ?case
  proof (cases "is_blob item")
    case True
    then have 1: "process_item item a = Inr (blob_step (path_of item) a)"
      using process_item_listed [OF l, of a] by auto
    have "file_part (blob_step (path_of item) a) = file_part (blob_step (path_of item) b)"
      using Cons.prems(2) by (rule file_part_blob_step)
    from Cons.IH [OF ls this] show ?thesis
      using True 1 by (simp add: then_do_def)
  next
    case False
    then obtain d where 1: "process_item item a = Inr (a\<lparr>directories := d\<rparr>)"
      using process_item_listed [OF l, of a] by auto
    have "file_part (a\<lparr>directories := d\<rparr>) = file_part b"
      using Cons.prems(2) by simp
    from Cons.IH [OF ls this] show ?thesis
      using False 1 by (simp add: then_do_def)
  qed
qed

lemma initial_github_analysis_file_part:
  assumes "subscript repo_data ''name'' = Inr nm"
  shows "\<exists>a0. initial_github_analysis repo_data own url = Inr a0 \<and>
              file_part a0 = file_part widget_analysis"
proof -
  from assms obtain kvs where "repo_data = JObj kvs"
    by (cases repo_data) (simp_all add: subscript_def)
  with assms show ?thesis
    by (simp add: initial_github_analysis_def subscript_def dict_get_def then_do_def
          file_part_def widget_analysis_def)
qed

lemma summarize_listed:
  assumes "subscript repo_data ''name'' = Inr nm"
    and "tree_entries tree_data = Inr items"
    and "\<forall>item \<in> set items. listed item"
  shows "\<exists>a. summarize repo_data tree_data own url = Inr a \<and>
           file_part a = file_part (fold blob_step (map path_of (filter is_blob items)) widget_analysis)"
proof -
  obtain a0 where a0: "initial_github_analysis repo_data own url = Inr a0"
    and f: "file_part a0 = file_part widget_analysis"
    using initial_github_analysis_file_part [OF assms(1)] by blast
  have "summarize repo_data tree_data own url = process_tree items a0"
    using assms(2)
    by (auto simp: summarize_def a0 tree_entries_def then_do_def split: sum.splits)
  then show ?thesis
    using process_tree_listed [OF assms(3) f] by simp
qed

lemma widget_file_part:
  "file_part (fold blob_step [''requirements.txt'', ''src/main.py'', ''test_main.py'', ''Dockerfile'']
      widget_analysis)
   = ([''requirements.txt'', ''src/main.py'', ''test_main.py'', ''Dockerfile''],
      [(''.txt'', 1), (''.py'', 2)], 4, True, False, True, True,
      [''requirements.txt'', ''Dockerfile''])"
  by code_simp

text \<open>
  What a sequence of files leaves in the flags, the count and the histogram, and that
  their order plays no part in it.
\<close>

lemma blob_step_flags:
  "has_requirements (blob_step p a) = (has_requirements a \<or> category (basename p) = 1)"
  "has_package_json (blob_step p a) = (has_package_json a \<or> category (basename p) = 2)"
  "has_dockerfile (blob_step p a) = (has_dockerfile a \<or> category (basename p) = 3)"
  "has_tests (blob_step p a) = (has_tests a \<or> category (basename p) = 4)"
  "file_count (blob_step p a) = Suc (file_count a)"
  by (simp_all add: blob_step_def mark_file_def category_def)

lemma fold_blob_step_flags:
  "has_requirements (fold blob_step ps a) = (has_requirements a \<or> (\<exists>p \<in> set ps. category (basename p) = 1))"
  "has_package_json (fold blob_step ps a) = (has_package_json a \<or> (\<exists>p \<in> set ps. category (basename p) = 2))"
  "has_dockerfile (fold blob_step ps a) = (has_dockerfile a \<or> (\<exists>p \<in> set ps. category (basename p) = 3))"
  "has_tests (fold blob_step ps a) = (has_tests a \<or> (\<exists>p \<in> set ps. category (basename p) = 4))"
  "file_count (fold blob_step ps a) = file_count a + length ps"
  by (induction ps arbitrary: a) (auto simp: blob_step_flags)

lemma map_of_languages_blob_step:
  "map_of (languages (blob_step p a)) k =
     (if lower (suffix p) \<noteq> [] \<and> lower (suffix p) = k
      then Some ((case map_of (languages a) k of None \<Rightarrow> 0 | Some n \<Rightarrow> n) + 1)
      else map_of (languages a) k)"
  by (simp add: blob_step_def count_ext_def update_conv')

lemma map_of_languages_fold:
  "map_of (languages (fold blob_step ps a)) k =
     (let n = length (filter (\<lambda>p. lower (suffix p) \<noteq> [] \<and> lower (suffix p) = k) ps) in
      if n = 0 then map_of (languages a) k
      else Some ((case map_of (languages a) k of None \<Rightarrow> 0 | Some m \<Rightarrow> m) + n))"
proof (induction ps arbitrary: a)
  case Nil
  show ?case by simp
next
  case (Cons p ps)
  show ?case
    unfolding fold_Cons comp_def Cons.IH [of "blob_step p a"] map_of_languages_blob_step [of p a k]
    by (simp add: Let_def)
qed

lemma length_filter_reorder:
  assumes "distinct ps" and "distinct qs" and "set ps = set qs"
  shows "length (filter P ps) = length (filter P qs)"
  using assms by (simp add: distinct_length_filter)

lemma fold_blob_step_reorder:
  assumes "distinct ps" and "distinct qs" and "set ps = set qs"
  shows "has_requirements (fold blob_step ps a) = has_requirements (fold blob_step qs a)"
    and "has_package_json (fold blob_step ps a) = has_package_json (fold blob_step qs a)"
    and "has_dockerfile (fold blob_step ps a) = has_dockerfile (fold blob_step qs a)"
    and "has_tests (fold blob_step ps a) = has_tests (fold blob_step qs a)"
    and "file_count (fold blob_step ps a) = file_count (fold blob_step qs a)"
    and "map_of (languages (fold blob_step ps a)) = map_of (languages (fold blob_step qs a))"
proof -
  show "has_requirements (fold blob_step ps a) = has_requirements (fold blob_step qs a)"
    "has_package_json (fold blob_step ps a) = has_package_json (fold blob_step qs a)"
    "has_dockerfile (fold blob_step ps a) = has_dockerfile (fold blob_step qs a)"
    "has_tests (fold blob_step ps a) = has_tests (fold blob_step qs a)"
    by (simp_all add: fold_blob_step_flags assms(3))
  have "length ps = length qs"
    using assms by (metis distinct_card)
  then show "file_count (fold blob_step ps a) = file_count (fold blob_step qs a)"
    by (simp add: fold_blob_step_flags)
  show "map_of (languages (fold blob_step ps a)) = map_of (languages (fold blob_step qs a))"
  proof
    fix k
    show "map_of (languages (fold blob_step ps a)) k = map_of (languages (fold blob_step qs a)) k"
      unfolding map_of_languages_fold
      by (simp only: length_filter_reorder [OF assms])
  qed
qed

text \<open>
  C4. The reference is \<open>https://github.com/acme/widget\<close>; both requests succeed, the
  metadata has a name and a default branch, and the files of the tree listing are
  \<open>requirements.txt\<close>, \<open>src/main.py\<close>, \<open>test_main.py\<close> and \<open>Dockerfile\<close>, each once and in
  any order (entries for directories may stand between them). Then the scan returns a
  summary with the dependency manifest, the container definition and the tests flagged,
  four files counted and the histogram \<open>.txt\<close>: 1, \<open>.py\<close>: 2.
\<close>

theorem acme_widget_scenario:
  assumes "net (api_base ''acme'' ''widget'', auth_headers tok) = Inr repo_response"
    and "status_code repo_response = 200"
    and "json_body repo_response = Inr repo_data"
    and "subscript repo_data ''default_branch'' = Inr branch"
    and "subscript repo_data ''name'' = Inr nm"
    and "net (tree_url ''acme'' ''widget'' branch, auth_headers tok) = Inr tree_response"
    and "status_code tree_response = 200"
    and "json_body tree_response = Inr tree_data"
    and "tree_entries tree_data = Inr items"
    and "\<forall>item \<in> set items. listed item"
    and "distinct (map path_of (filter is_blob items))"
    and "set (map path_of (filter is_blob items))
           = {''requirements.txt'', ''src/main.py'', ''test_main.py'', ''Dockerfile''}"
  shows "\<exists>a. fetch_github_repo_structure net ''https://github.com/acme/widget'' tok
               = (Inr a, [(api_base ''acme'' ''widget'', auth_headers tok),
                          (tree_url ''acme'' ''widget'' branch, auth_headers tok)]) \<and>
             has_requirements a \<and> has_dockerfile a \<and> has_tests a \<and> file_count a = 4 \<and>
             map_of (languages a) = [''.txt'' \<mapsto> 1, ''.py'' \<mapsto> 2]"
proof -
  let ?ps = "map path_of (filter is_blob items)"
  let ?qs = "[''requirements.txt'', ''src/main.py'', ''test_main.py'', ''Dockerfile'']"
  obtain a where s: "summarize repo_data tree_data ''acme'' ''https://github.com/acme/widget'' = Inr a"
    and f: "file_part a = file_part (fold blob_step ?ps widget_analysis)"
    using summarize_listed [OF assms(5) assms(9) assms(10)] by blast
  have o: "owner_and_repo ''https://github.com/acme/widget'' = Inr (''acme'', ''widget'')"
    using owner_and_repo_widget by (simp add: widget_url_def)
  have r: "fetch_github_repo_structure net ''https://github.com/acme/widget'' tok
          = (Inr a, [(api_base ''acme'' ''widget'', auth_headers tok),
                     (tree_url ''acme'' ''widget'' branch, auth_headers tok)])"
    by (simp add: fetch_github_repo_structure_def o assms(1-8) s then_do_def caught_def Let_def)
  have d: "distinct ?qs"
    by simp
  have e: "set ?ps = set ?qs"
    using assms(12) by auto
  note same = fold_blob_step_reorder [OF assms(11) d e, of widget_analysis]
  have w: "has_requirements (fold blob_step ?qs widget_analysis)"
    "has_dockerfile (fold blob_step ?qs widget_analysis)"
    "has_tests (fold blob_step ?qs widget_analysis)"
    "file_count (fold blob_step ?qs widget_analysis) = 4"
    "languages (fold blob_step ?qs widget_analysis) = [(''.txt'', 1), (''.py'', 2)]"
    using widget_file_part by (simp_all add: file_part_def)
  have "has_requirements a" "has_dockerfile a" "has_tests a" "file_count a = 4"
    using f same w by (simp_all add: file_part_def)
  moreover have "map_of (languages a) = map_of [(''.txt'', 1), (''.py'', 2)]"
    using f same(6) w(5) by (simp add: file_part_def)
  then have "map_of (languages a) = [''.txt'' \<mapsto> 1, ''.py'' \<mapsto> 2]"
    by (simp add: fun_upd_twist)
  ultimately show ?thesis
    using r by blast
qed

text \<open>C4 on the example service, which lists the tree sorted by path.\<close>

theorem acme_widget_scenario_witness:
  "\<exists>a. fetch_github_repo_structure (widget_net widget_entries) ''https://github.com/acme/widget'' None
          = (Inr a, widget_requests) \<and>
        has_requirements a \<and> has_dockerfile a \<and> has_tests a \<and> file_count a = 4 \<and>
        map_of (languages a) = [''.txt'' \<mapsto> 1, ''.py'' \<mapsto> 2]"
proof -
  have u: "api_base ''acme'' ''widget'' = ''https://api.github.com/repos/acme/widget''"
    "tree_url ''acme'' ''widget'' (JStr ''main'')
       = ''https://api.github.com/repos/acme/widget/git/trees/main?recursive=1''"
    by (simp_all add: api_base_def tree_url_def py_str_def)
  have l: "\<forall>item \<in> set widget_entries. listed item"
    by (simp add: widget_entries_def listed_def blob_entry_def dir_entry_def subscript_def)
  have p: "map path_of (filter is_blob widget_entries)
           = [''Dockerfile'', ''requirements.txt'', ''src/main.py'', ''test_main.py'']"
    by (simp add: widget_entries_def is_blob_def path_of_def blob_entry_def dir_entry_def subscript_def)
  have "\<exists>a. fetch_github_repo_structure (widget_net widget_entries) ''https://github.com/acme/widget'' None
               = (Inr a, [(api_base ''acme'' ''widget'', auth_headers None),
                          (tree_url ''acme'' ''widget'' (JStr ''main''), auth_headers None)]) \<and>
             has_requirements a \<and> has_dockerfile a \<and> has_tests a \<and> file_count a = 4 \<and>
             map_of (languages a) = [''.txt'' \<mapsto> 1, ''.py'' \<mapsto> 2]"
  proof (rule acme_widget_scenario [where repo_response = "ok_response widget_repo_data"
        and repo_data = widget_repo_data and nm = "JStr ''widget''"
        and tree_response = "ok_response (tree_body widget_entries)"
        and tree_data = "tree_body widget_entries" and items = widget_entries])
    show "widget_net widget_entries (api_base ''acme'' ''widget'', auth_headers None)
            = Inr (ok_response widget_repo_data)"
      by (simp add: u widget_net_def serve_widget_def)
    show "widget_net widget_entries (tree_url ''acme'' ''widget'' (JStr ''main''), auth_headers None)
            = Inr (ok_response (tree_body widget_entries))"
      by (simp add: u widget_net_def serve_widget_def)
    show "subscript widget_repo_data ''default_branch'' = Inr (JStr ''main'')"
      "subscript widget_repo_data ''name'' = Inr (JStr ''widget'')"
      by (simp_all add: widget_repo_data_def subscript_def)
    show "set (map path_of (filter is_blob widget_entries))
           = {''requirements.txt'', ''src/main.py'', ''test_main.py'', ''Dockerfile''}"
      unfolding p by auto
  qed (simp_all add: ok_response_def l p)
  then show ?thesis
    by (simp add: u auth_headers_def widget_requests_def)
qed

section \<open>Failures of the hosting service\<close>

text \<open>
  What the two branches for a failure status return, with a reference that has an owner
  and a repository. When the metadata request is answered with a status other than 200
  and a body that is a JSON object, the scan fails with \<open>Error: <status> - <message>\<close>,
  the message being the body's \<open>message\<close> or \<open>Unknown error\<close> when it has none, after that
  one request. When the metadata request succeeded and the tree request is answered with
  a status other than 200, the scan fails with \<open>Error fetching tree: <status>\<close>: this
  branch does not read the body.
\<close>

theorem status_failures_are_reported:
  assumes "owner_and_repo url = Inr (own, repo)"
  shows "(net (api_base own repo, auth_headers tok) = Inr r \<and> status_code r \<noteq> 200 \<and>
          json_body r = Inr (JObj kvs) \<longrightarrow>
            fetch_github_repo_structure net url tok =
              (Inl (Msg (''Error: '' @ str_int (status_code r) @ '' - '' @
                         py_str (case map_of kvs ''message'' of
                                   None \<Rightarrow> JStr ''Unknown error'' | Some m \<Rightarrow> m))),
               [(api_base own repo, auth_headers tok)])) \<and>
         (net (api_base own repo, auth_headers tok) = Inr r \<and> status_code r = 200 \<and>
          json_body r = Inr d \<and> subscript d ''default_branch'' = Inr b \<and>
          net (tree_url own repo b, auth_headers tok) = Inr t \<and> status_code t \<noteq> 200 \<longrightarrow>
            fetch_github_repo_structure net url tok =
              (Inl (Msg (''Error fetching tree: '' @ str_int (status_code t))),
               [(api_base own repo, auth_headers tok), (tree_url own repo b, auth_headers tok)]))"
  using assms
  by (simp add: fetch_github_repo_structure_def then_do_def dict_get_def Let_def)

text \<open>
  C7 fails in the code for the tree request. The service answers the metadata request
  with 200 and the tree request with 404 and the message \<open>Not Found\<close>; the failure
  returned is \<open>Error fetching tree: 404\<close>, with the status code and without the message
  that the branch for the metadata request reports.
\<close>

theorem tree_failure_drops_provider_message:
  "json_body not_found = Inr (JObj [(''message'', JStr ''Not Found'')]) \<and>
   fetch_github_repo_structure (serve_widget (ok_response widget_repo_data) not_found) widget_url None
     = (Inl (Msg ''Error fetching tree: 404''), widget_requests) \<and>
   \<not> contains ''Error fetching tree: 404'' ''Not Found''"
  by code_simp

text \<open>The two branches on a service without the repository, and on one without its tree.\<close>

theorem status_failures_are_reported_witness:
  "owner_and_repo widget_url = Inr (''acme'', ''widget'') \<and>
   fetch_github_repo_structure (serve_widget not_found not_found) widget_url None
     = (Inl (Msg ''Error: 404 - Not Found''), [(''https://api.github.com/repos/acme/widget'', [])]) \<and>
   fetch_github_repo_structure (serve_widget (ok_response widget_repo_data) not_found) widget_url None
     = (Inl (Msg ''Error fetching tree: 404''), widget_requests)"
proof -
  have u: "api_base ''acme'' ''widget'' = ''https://api.github.com/repos/acme/widget''"
    "tree_url ''acme'' ''widget'' (JStr ''main'')
       = ''https://api.github.com/repos/acme/widget/git/trees/main?recursive=1''"
    by (simp_all add: api_base_def tree_url_def py_str_def)
  have n: "str_int 404 = ''404''"
    by code_simp
  have d: "subscript widget_repo_data ''default_branch'' = Inr (JStr ''main'')"
    by (simp add: widget_repo_data_def subscript_def)
  note o = owner_and_repo_widget
  from status_failures_are_reported [OF o, of "serve_widget not_found not_found" None not_found
      "[(''message'', JStr ''Not Found'')]"]
  have 1: "fetch_github_repo_structure (serve_widget not_found not_found) widget_url None
     = (Inl (Msg ''Error: 404 - Not Found''), [(''https://api.github.com/repos/acme/widget'', [])])"
    by (simp add: u n serve_widget_def not_found_def auth_headers_def py_str_def)
  from status_failures_are_reported [OF o, of "serve_widget (ok_response widget_repo_data) not_found"
      None "ok_response widget_repo_data" _ widget_repo_data "JStr ''main''" not_found]
  have 2: "fetch_github_repo_structure (serve_widget (ok_response widget_repo_data) not_found) widget_url None
     = (Inl (Msg ''Error fetching tree: 404''), widget_requests)"
    by (simp add: u n d serve_widget_def not_found_def ok_response_def auth_headers_def
          widget_requests_def)
  from o 1 2 show ?thesis
    by blast
qed

section \<open>The content of one file\<close>

text \<open>
  C9. Whatever the service and the decoders do, the fetch of one file returns \<open>None\<close> or
  a text of at most 2000 characters: \<open>None\<close> when the request raises, when the status is
  not 200, when the body is not JSON or has no \<open>get\<close>, and when either decoder raises;
  the first 2000 characters of the decoded text otherwise.
\<close>

theorem file_content_is_truncated_or_absent:
  assumes "result = fetch_github_file_content b64decode utf8_decode net own repo file_path branch tok"
    and "answer = net (content_url own repo file_path branch, auth_headers tok)"
  shows "(case result of None \<Rightarrow> True | Some s \<Rightarrow> length s \<le> 2000) \<and>
         (answer = Inl e \<longrightarrow> result = None) \<and>
         (answer = Inr r \<and> status_code r \<noteq> 200 \<longrightarrow> result = None) \<and>
         (answer = Inr r \<and> status_code r = 200 \<and> json_body r = Inl e \<longrightarrow> result = None) \<and>
         (answer = Inr r \<and> status_code r = 200 \<and> json_body r = Inr j \<and>
          dict_get j ''content'' (JStr []) = Inl e \<longrightarrow> result = None) \<and>
         (answer = Inr r \<and> status_code r = 200 \<and> json_body r = Inr j \<and>
          dict_get j ''content'' (JStr []) = Inr c \<and> b64decode c = Inl e \<longrightarrow> result = None) \<and>
         (answer = Inr r \<and> status_code r = 200 \<and> json_body r = Inr j \<and>
          dict_get j ''content'' (JStr []) = Inr c \<and> b64decode c = Inr bytes \<and>
          utf8_decode bytes = Inl e \<longrightarrow> result = None) \<and>
         (answer = Inr r \<and> status_code r = 200 \<and> json_body r = Inr j \<and>
          dict_get j ''content'' (JStr []) = Inr c \<and> b64decode c = Inr bytes \<and>
          utf8_decode bytes = Inr decoded \<longrightarrow> result = Some (take 2000 decoded))"
  unfolding assms
  by (auto simp: fetch_github_file_content_def then_do_def split: sum.splits)

text \<open>C9 on a file of 3000 characters, a content that does not decode, a 404 and a dead service.\<close>

theorem file_content_is_truncated_or_absent_witness:
  "fetch_github_file_content table_b64decode ascii_decode
      (file_net (ok_response (JObj [(''content'', JStr (concat (replicate 1000 ''YWFh'')))])))
      ''acme'' ''widget'' ''README.md'' ''main'' None = Some (replicate 2000 CHR ''a'') \<and>
   fetch_github_file_content table_b64decode ascii_decode
      (file_net (ok_response (JObj [(''content'', JStr ''!'')])))
      ''acme'' ''widget'' ''README.md'' ''main'' None = None \<and>
   fetch_github_file_content table_b64decode ascii_decode (file_net not_found)
      ''acme'' ''widget'' ''README.md'' ''main'' None = None \<and>
   fetch_github_file_content table_b64decode ascii_decode down_net
      ''acme'' ''widget'' ''README.md'' ''main'' None = None"
proof -
  have u: "content_url ''acme'' ''widget'' ''README.md'' ''main''
             = ''https://api.github.com/repos/acme/widget/contents/README.md?ref=main''"
    by (simp add: content_url_def)
  let ?big = "JObj [(''content'', JStr (concat (replicate 1000 ''YWFh'')))]"
  have b: "table_b64decode (JStr (concat (replicate 1000 ''YWFh''))) = Inr (replicate 3000 CHR ''a'')"
    by (simp add: table_b64decode_def)
  have bad: "table_b64decode (JStr ''!'') = Inl ValueError"
  proof -
    have "concat (replicate 1000 ''YWFh'') \<noteq> ''!''"
      by (simp add: numeral_eq_Suc)
    then show ?thesis
      by (simp add: table_b64decode_def)
  qed
  have 1: "fetch_github_file_content table_b64decode ascii_decode (file_net (ok_response ?big))
      ''acme'' ''widget'' ''README.md'' ''main'' None = Some (replicate 2000 CHR ''a'')"
    using file_content_is_truncated_or_absent [OF refl refl, of table_b64decode ascii_decode
        "file_net (ok_response ?big)" "''acme''" "''widget''" "''README.md''" "''main''" None
        _ "ok_response ?big" ?big "JStr (concat (replicate 1000 ''YWFh''))"
        "replicate 3000 CHR ''a''" "replicate 3000 CHR ''a''"]
    by (simp add: u b file_net_def ok_response_def dict_get_def ascii_decode_def)
  let ?odd = "JObj [(''content'', JStr ''!'')]"
  have 2: "fetch_github_file_content table_b64decode ascii_decode (file_net (ok_response ?odd))
      ''acme'' ''widget'' ''README.md'' ''main'' None = None"
    using file_content_is_truncated_or_absent [OF refl refl, of table_b64decode ascii_decode
        "file_net (ok_response ?odd)" "''acme''" "''widget''" "''README.md''" "''main''" None
        ValueError "ok_response ?odd" ?odd "JStr ''!''"]
    by (simp add: u bad file_net_def ok_response_def dict_get_def)
  have 3: "fetch_github_file_content table_b64decode ascii_decode (file_net not_found)
      ''acme'' ''widget'' ''README.md'' ''main'' None = None"
    using file_content_is_truncated_or_absent [OF refl refl, of table_b64decode ascii_decode
        "file_net not_found" "''acme''" "''widget''" "''README.md''" "''main''" None _ not_found]
    by (simp add: u file_net_def not_found_def)
  have 4: "fetch_github_file_content table_b64decode ascii_decode down_net
      ''acme'' ''widget'' ''README.md'' ''main'' None = None"
    using file_content_is_truncated_or_absent [OF refl refl, of table_b64decode ascii_decode
        down_net "''acme''" "''widget''" "''README.md''" "''main''" None "Transport ''Connection refused''"]
    by (simp add: down_net_def)
  from 1 2 3 4 show ?thesis
    by blast
qed

section \<open>The reference\<close>

lemma set_strip: "set (strip c s) \<subseteq> set s"
proof -
  have "set (dropWhile P xs) \<subseteq> set xs" for P and xs :: string
    by (auto dest: set_dropWhileD)
  from this [of "\<lambda>x. x = c" "rev (dropWhile (\<lambda>x. x = c) s)"] this [of "\<lambda>x. x = c" s]
  show ?thesis
    by (auto simp: strip_def)
qed

lemma startswith_subset: "startswith s sub \<Longrightarrow> set sub \<subseteq> set s"
  unfolding startswith_def by (metis set_take_subset)

lemma contains_subset: "contains s sub \<Longrightarrow> set sub \<subseteq> set s"
proof (induction s)
  case Nil
  then show ?case by simp
next
  case (Cons c cs)
  then show ?case
    using startswith_subset [of "c # cs" sub] by auto
qed

lemma startswith_contains: "startswith s sub \<Longrightarrow> contains s sub"
  by (cases s) (simp_all add: startswith_def)

lemma replace_absent: "\<not> contains s old \<Longrightarrow> replace old new s = s"
  by (induction s) auto

lemma replace_prefix:
  assumes "old \<noteq> []"
  shows "replace old new (old @ rest) = new @ replace old new rest"
proof -
  from assms obtain c cs where old: "old = c # cs"
    by (cases old) auto
  have "startswith (c # cs @ rest) old"
    by (simp add: old startswith_def)
  then show ?thesis
    using replace.simps(2) [of old new c "cs @ rest"] by (simp add: old)
qed

lemma https_not_in_http_prefix:
  assumes "\<not> contains rest ''https://github.com/''"
  shows "\<not> contains (''http://github.com/'' @ rest) ''https://github.com/''"
  using assms by simp

lemma reference_parts_prefix:
  assumes "pre \<in> {[], ''https://github.com/'', ''http://github.com/''}"
    and "\<not> contains rest ''https://github.com/''"
    and "\<not> contains rest ''http://github.com/''"
  shows "reference_parts (pre @ rest) = strip CHR ''/'' rest"
proof -
  consider "pre = []" | "pre = ''https://github.com/''" | "pre = ''http://github.com/''"
    using assms(1) by auto
  then have "replace ''http://github.com/'' [] (replace ''https://github.com/'' [] (pre @ rest)) = rest"
  proof cases
    case 1
    then show ?thesis
      by (simp add: replace_absent assms)
  next
    case 2
    have "replace ''https://github.com/'' [] (''https://github.com/'' @ rest)
            = [] @ replace ''https://github.com/'' [] rest"
      by (rule replace_prefix) simp
    then show ?thesis
      by (simp only: 2 replace_absent [OF assms(2)] replace_absent [OF assms(3)] append_Nil)
  next
    case 3
    have "replace ''https://github.com/'' [] (''http://github.com/'' @ rest)
            = ''http://github.com/'' @ rest"
      by (rule replace_absent) (rule https_not_in_http_prefix [OF assms(2)])
    moreover have "replace ''http://github.com/'' [] (''http://github.com/'' @ rest)
            = [] @ replace ''http://github.com/'' [] rest"
      by (rule replace_prefix) simp
    ultimately show ?thesis
      by (simp only: 3 replace_absent [OF assms(3)] append_Nil)
  qed
  then show ?thesis
    by (simp only: reference_parts_def)
qed

lemma no_slash_no_host:
  assumes "CHR ''/'' \<notin> set rest"
  shows "\<not> contains rest ''https://github.com/''" "\<not> contains rest ''http://github.com/''"
  using assms contains_subset [of rest "''https://github.com/''"]
    contains_subset [of rest "''http://github.com/''"]
  by auto

text \<open>
  C8. A reference that is the host prefix followed by a text without a slash fails with
  the format message, and no request is made: the list of requests is empty, and the
  result is the failure alone.
\<close>

theorem reference_without_slash_fails_before_any_request:
  assumes "pre \<in> {''https://github.com/'', ''http://github.com/''}"
    and "CHR ''/'' \<notin> set rest"
  shows "fetch_github_repo_structure net (pre @ rest) tok
           = (Inl (Msg ''Invalid GitHub URL format''), [])"
proof -
  have "reference_parts (pre @ rest) = strip CHR ''/'' rest"
    using assms(1) no_slash_no_host [OF assms(2)] by (intro reference_parts_prefix) auto
  moreover have "CHR ''/'' \<notin> set (strip CHR ''/'' rest)"
    using assms(2) set_strip [of "CHR ''/''" rest] by auto
  ultimately have "owner_and_repo (pre @ rest) = Inl (Msg ''Invalid GitHub URL format'')"
    by (simp add: owner_and_repo_def)
  then show ?thesis
    by (simp add: fetch_github_repo_structure_def)
qed

text \<open>C8 on \<open>https://github.com/onlyowner\<close>.\<close>

theorem reference_without_slash_fails_before_any_request_witness:
  "''https://github.com/'' \<in> {''https://github.com/'', ''http://github.com/''} \<and>
   CHR ''/'' \<notin> set ''onlyowner'' \<and>
   fetch_github_repo_structure (widget_net []) ''https://github.com/onlyowner'' None
     = (Inl (Msg ''Invalid GitHub URL format''), [])"
proof -
  have h: "''https://github.com/'' \<in> {''https://github.com/'', ''http://github.com/''}"
    "CHR ''/'' \<notin> set ''onlyowner''"
    by simp_all
  from reference_without_slash_fails_before_any_request [OF h, of "widget_net []" None] h
  show ?thesis
    by simp
qed

section \<open>The owner and the repository\<close>

lemma split_nonempty: "split sep s \<noteq> []"
  by (induction s) (auto split: list.splits)

lemma length_split: "length (split sep s) = Suc (length (filter (\<lambda>c. c = sep) s))"
proof (induction s)
  case Nil
  show ?case by simp
next
  case (Cons c cs)
  obtain w ws where "split sep cs = w # ws"
    using split_nonempty [of sep cs] by (cases "split sep cs") auto
  with Cons show ?case
    by auto
qed

lemma strip_host_prefix_prefix:
  assumes "pre \<in> {[], ''https://github.com/'', ''http://github.com/''}"
    and "\<not> contains rest ''https://github.com/''"
    and "\<not> contains rest ''http://github.com/''"
  shows "strip_host_prefix (pre @ rest) = rest"
proof -
  consider "pre = []" | "pre = ''https://github.com/''" | "pre = ''http://github.com/''"
    using assms(1) by auto
  then show ?thesis
  proof cases
    case 1
    have "\<not> startswith rest ''https://github.com/''" "\<not> startswith rest ''http://github.com/''"
      using assms(2,3) startswith_contains by blast+
    then show ?thesis
      by (simp add: 1 strip_host_prefix_def)
  next
    case 2
    then show ?thesis
      by (simp add: strip_host_prefix_def)
  next
    case 3
    then show ?thesis
      by (simp add: strip_host_prefix_def)
  qed
qed

lemma owner_and_repo_of_parts:
  "owner_and_repo url =
     (case split CHR ''/'' (reference_parts url) of
        own # repo # extra \<Rightarrow> Inr (own, repo)
      | _ \<Rightarrow> Inl (Msg ''Invalid GitHub URL format''))"
proof (cases "CHR ''/'' \<in> set (reference_parts url)")
  case True
  then have "filter (\<lambda>c. c = CHR ''/'') (reference_parts url) \<noteq> []"
    by (simp add: filter_empty_conv)
  then have "2 \<le> length (split CHR ''/'' (reference_parts url))"
    by (cases "filter (\<lambda>c. c = CHR ''/'') (reference_parts url)") (simp_all add: length_split)
  then obtain own repo extra where "split CHR ''/'' (reference_parts url) = own # repo # extra"
    by (cases "split CHR ''/'' (reference_parts url)" rule: remdups_adj.cases) auto
  then show ?thesis
    using True by (simp add: owner_and_repo_def)
next
  case False
  then have "filter (\<lambda>c. c = CHR ''/'') (reference_parts url) = []"
    by (auto simp: filter_empty_conv)
  then have "length (split CHR ''/'' (reference_parts url)) = 1"
    by (simp add: length_split)
  then obtain x where "split CHR ''/'' (reference_parts url) = [x]"
    by (cases "split CHR ''/'' (reference_parts url)") auto
  then show ?thesis
    using False by (simp add: owner_and_repo_def)
qed

text \<open>
  C10 (as amended). For a reference in which the two host texts stand nowhere but at the
  front (one of them, or none), the owner and the repository are the first two components
  of the reference with that prefix taken off and the slashes at both ends stripped;
  with fewer than two components the reference is refused. Components after the second
  play no part: whatever \<open>extra\<close> is, the result is the first two.
\<close>

theorem owner_and_repo_are_the_first_two_components:
  assumes "pre \<in> {[], ''https://github.com/'', ''http://github.com/''}"
    and "\<not> contains rest ''https://github.com/''"
    and "\<not> contains rest ''http://github.com/''"
  shows "owner_and_repo (pre @ rest) =
           (case first_two_components (pre @ rest) of
              Some p \<Rightarrow> Inr p
            | None \<Rightarrow> Inl (Msg ''Invalid GitHub URL format'')) \<and>
         (split CHR ''/'' (strip CHR ''/'' rest) = own # repo # extra \<longrightarrow>
            owner_and_repo (pre @ rest) = Inr (own, repo))"
proof -
  have p: "reference_parts (pre @ rest) = strip CHR ''/'' rest"
    using assms by (rule reference_parts_prefix)
  have s: "strip_host_prefix (pre @ rest) = rest"
    using assms by (rule strip_host_prefix_prefix)
  show ?thesis
    unfolding owner_and_repo_of_parts [of "pre @ rest"] first_two_components_def p s
    by (auto split: list.splits)
qed

text \<open>
  C10 as stated fails on a reference that has a host text further in: \<open>replace\<close> removes
  it there as well, so the repository is \<open>b\<close>, where the first two components after the
  prefix are \<open>a\<close> and \<open>https:\<close>.
\<close>

theorem host_text_is_removed_everywhere:
  "owner_and_repo ''https://github.com/a/https://github.com/b'' = Inr (''a'', ''b'') \<and>
   first_two_components ''https://github.com/a/https://github.com/b'' = Some (''a'', ''https:'')"
  by code_simp

text \<open>C10 (as amended) on a reference that ends with \<open>/tree/main\<close>.\<close>

theorem owner_and_repo_are_the_first_two_components_witness:
  "''https://github.com/'' \<in> {[], ''https://github.com/'', ''http://github.com/''} \<and>
   \<not> contains ''acme/widget/tree/main'' ''https://github.com/'' \<and>
   \<not> contains ''acme/widget/tree/main'' ''http://github.com/'' \<and>
   first_two_components ''https://github.com/acme/widget/tree/main'' = Some (''acme'', ''widget'') \<and>
   owner_and_repo ''https://github.com/acme/widget/tree/main'' = Inr (''acme'', ''widget'')"
proof -
  have h: "''https://github.com/'' \<in> {[], ''https://github.com/'', ''http://github.com/''}"
    by simp
  have c: "\<not> contains ''acme/widget/tree/main'' ''https://github.com/''"
    "\<not> contains ''acme/widget/tree/main'' ''http://github.com/''"
    by code_simp+
  have f: "first_two_components ''https://github.com/acme/widget/tree/main'' = Some (''acme'', ''widget'')"
    by code_simp
  from owner_and_repo_are_the_first_two_components [OF h c] f
  have "owner_and_repo ''https://github.com/acme/widget/tree/main'' = Inr (''acme'', ''widget'')"
    by simp
  with h c f show ?thesis
    by blast
qed

section \<open>The caps that hold\<close>

text \<open>
  The remote scan appends one entry at a time under its tests, and so does the local
  scan for files: \<open>files\<close> has at most 100 entries in both scans, and \<open>directories\<close> at
  most 50 in the remote scan.
\<close>

theorem caps_of_the_remote_scan_and_of_local_files:
  "(fetch_github_repo_structure net url tok = (Inr a, reqs) \<longrightarrow>
      length (files a) \<le> 100 \<and> length (directories a) \<le> 50) \<and>
   length (files (analyze_local_directory t)) \<le> 100"
proof (intro conjI impI)
  assume ok: "fetch_github_repo_structure net url tok = (Inr a, reqs)"
  from ok obtain own repo_data tree_data
    where sum: "summarize repo_data tree_data own url = Inr a"
    by (rule fetch_Inr)
  from sum obtain a0 items
    where a0: "initial_github_analysis repo_data own url = Inr a0"
      and tree: "process_tree items a0 = Inr a"
    by (rule summarize_Inr)
  have "length (files a0) = min 100 (file_count a0)"
    using initial_github_analysis_fields(1,4) [OF a0] by simp
  then have "length (files a) = min 100 (file_count a)"
    by (rule process_tree_files [OF tree])
  then show "length (files a) \<le> 100"
    by simp
  have "length (directories a0) \<le> 50"
    using initial_github_analysis_fields(2) [OF a0] by simp
  then show "length (directories a) \<le> 50"
    by (rule process_tree_directories [OF tree])
next
  have "length (files (walk [] t initial_local_analysis))
          = min 100 (file_count (walk [] t initial_local_analysis))"
    by (rule walk_files_capped) simp
  then show "length (files (analyze_local_directory t)) \<le> 100"
    by (simp add: analyze_local_directory_def)
qed

text \<open>The caps on a repository and on a directory of 101 files.\<close>

theorem caps_of_the_remote_scan_and_of_local_files_witness:
  "(\<exists>a. fetch_github_repo_structure (widget_net (map blob_entry many_paths)) widget_url None
           = (Inr a, widget_requests) \<and>
        length (files a) \<le> 100 \<and> length (directories a) \<le> 50) \<and>
   length (files (analyze_local_directory (Dir many_paths []))) \<le> 100"
proof -
  obtain a where "process_tree (map blob_entry many_paths) widget_analysis = Inr a"
    using process_tree_blob_entries by blast
  then have ok: "fetch_github_repo_structure (widget_net (map blob_entry many_paths)) widget_url None
                   = (Inr a, widget_requests)"
    by (simp add: fetch_widget caught_def)
  from caps_of_the_remote_scan_and_of_local_files [of "widget_net (map blob_entry many_paths)"
      widget_url None a widget_requests "Dir many_paths []"] ok
  show ?thesis
    by blast
qed

end
